theory Spec2Isabelle
  imports Main
begin

section \<open>Data model\<close>

text \<open>
  The authentication service keeps its accounts in the \<open>users\<close> table of a hosted store and
  writes an \<open>audit_trail\<close> table. A timestamp is the number of milliseconds since the epoch
  (the source carries it as an ISO string made by \<open>toISOString\<close> and read back by
  \<open>new Date\<close>).
\<close>

type_synonym timestamp = int

datatype role = admin | teacher | student

text \<open>The interface \<open>AuthUser\<close>: the public profile of an account.\<close>

record auth_user =
  user_id :: string
  name :: string
  email :: string
  role :: role
  whatsapp_number :: "string option"
  academic_year :: "int option"
  current_semester :: "int option"
  is_active :: bool
  force_password_change :: bool
  last_login :: "timestamp option"
  created_at :: timestamp

text \<open>A row of the \<open>users\<close> table: the profile, the credential and the lockout state.\<close>

record user_row = auth_user +
  password_hash :: string
  failed_login_attempts :: "int option"
  locked_until :: "timestamp option"

text \<open>The object literals handed to \<open>db.updateUser\<close>: a list of column assignments.\<close>

datatype field_update =
    Set_failed_login_attempts int
  | Set_locked_until "timestamp option"
  | Set_last_login "timestamp option"
  | Set_password_hash string
  | Set_force_password_change bool

fun apply_update :: "field_update \<Rightarrow> user_row \<Rightarrow> user_row" where
  "apply_update (Set_failed_login_attempts n) u = u\<lparr>failed_login_attempts := Some n\<rparr>"
| "apply_update (Set_locked_until t) u = u\<lparr>locked_until := t\<rparr>"
| "apply_update (Set_last_login t) u = u\<lparr>last_login := t\<rparr>"
| "apply_update (Set_password_hash h) u = u\<lparr>password_hash := h\<rparr>"
| "apply_update (Set_force_password_change b) u = u\<lparr>force_password_change := b\<rparr>"

definition apply_updates :: "field_update list \<Rightarrow> user_row \<Rightarrow> user_row" where
  "apply_updates updates u = fold apply_update updates u"

text \<open>A row of the \<open>audit_trail\<close> table, as \<open>logAuditEvent\<close> builds it.\<close>

record audit_row =
  audit_user_id :: "string option"
  action :: string
  details :: string
  ip_address :: string
  user_agent :: string
  audit_created_at :: timestamp

text \<open>The error object of the store client.\<close>

record store_error =
  code :: string
  message :: string

text \<open>
  The session token: \<open>btoa(JSON.stringify(payload))\<close>; the model keeps the payload.
\<close>

datatype token = Token (token_user_id: string) (token_role: role) (iat: timestamp) (exp: timestamp)

datatype stored_item = Stored_user auth_user | Stored_token token

record credentials =
  username :: string
  password :: string

text \<open>
  What the operations return: \<open>success\<close> and the optional properties \<open>user\<close>,
  \<open>token\<close>, \<open>tempPassword\<close> and \<open>error\<close>; a property the source leaves out is
  \<open>None\<close>.
\<close>

record result =
  success :: bool
  user :: "auth_user option"
  token :: "token option"
  tempPassword :: "string option"
  error :: "string option"

definition failure :: "string \<Rightarrow> result" where
  "failure msg = \<lparr>success = False, user = None, token = None, tempPassword = None, error = Some msg\<rparr>"

text \<open>
  The password hashing library is not part of the repository; it is a parameter of the
  service. \<open>bcrypt_hash password rounds salt\<close> is \<open>bcrypt.hash(password, rounds)\<close> when
  the library draws \<open>salt\<close>; \<open>bcrypt_compare password hash\<close> is \<open>bcrypt.compare\<close>.
\<close>

record bcrypt =
  bcrypt_hash :: "string \<Rightarrow> nat \<Rightarrow> string \<Rightarrow> string"
  bcrypt_compare :: "string \<Rightarrow> string \<Rightarrow> bool"

section \<open>The world the service runs in\<close>

text \<open>
  The state the service reads and writes: the two tables, the clock, the sources of
  randomness, the in-memory session of the \<open>AuthService\<close> object, the browser's local
  storage and the console.

  \<^item> \<open>faults\<close> is the schedule of the store: each call of the store client takes the head;
    \<open>Some e\<close> makes that call answer with the error \<open>e\<close>, \<open>None\<close> (or an exhausted
    schedule) lets it through.
  \<^item> \<open>clock\<close> is what the next \<open>Date.now()\<close> or \<open>new Date()\<close> reads; after each reading
    it advances by the head of \<open>ticks\<close>.
  \<^item> \<open>randoms\<close> feeds \<open>Math.random()\<close>, \<open>salts\<close> feeds the salts of the hashing library.
  An exhausted \<open>ticks\<close> leaves the clock standing, an exhausted \<open>randoms\<close> draws 0 and an
  exhausted \<open>salts\<close> the empty salt.
\<close>

record world =
  users :: "user_row list"
  audit_trail :: "audit_row list"
  faults :: "store_error option list"
  clock :: timestamp
  ticks :: "nat list"
  randoms :: "nat list"
  salts :: "string list"
  currentUser :: "auth_user option"
  authToken :: "token option"
  localStorage :: "string \<rightharpoonup> stored_item"
  console :: "(string \<times> store_error) list"
  navigator_userAgent :: string

definition read_clock :: "world \<Rightarrow> timestamp \<times> world" where
  "read_clock w =
     (clock w,
      w\<lparr>clock := clock w + int (case ticks w of [] \<Rightarrow> 0 | d # _ \<Rightarrow> d),
        ticks := tl (ticks w)\<rparr>)"

definition next_fault :: "world \<Rightarrow> store_error option \<times> world" where
  "next_fault w =
     (case faults w of
        [] \<Rightarrow> (None, w)
      | f # fs \<Rightarrow> (f, w\<lparr>faults := fs\<rparr>))"

definition console_error :: "string \<Rightarrow> store_error \<Rightarrow> world \<Rightarrow> world" where
  "console_error label e w = w\<lparr>console := console w @ [(label, e)]\<rparr>"

section \<open>The store client (\<open>src/lib/supabase.ts\<close>)\<close>

definition PGRST116 :: store_error where
  "PGRST116 = \<lparr>code = ''PGRST116'',
               message = ''JSON object requested, multiple (or no) rows returned''\<rparr>"

text \<open>
  \<open>.single()\<close>: the response \<open>{ data, error }\<close> of a query that asks for one row. A
  failing request has no data; a result that is not exactly one row is the error
  \<open>PGRST116\<close>.
\<close>

definition single :: "'a list \<Rightarrow> store_error option \<Rightarrow> 'a option \<times> store_error option" where
  "single rows fault =
     (case fault of
        Some e \<Rightarrow> (None, Some e)
      | None \<Rightarrow> (case rows of [r] \<Rightarrow> (Some r, None) | _ \<Rightarrow> (None, Some PGRST116)))"

definition getUserById :: "string \<Rightarrow> world \<Rightarrow> (store_error + user_row option) \<times> world" where
  "getUserById userId w =
     (case next_fault w of (fault, w1) \<Rightarrow>
      (case single (filter (\<lambda>u. user_id u = userId) (users w1)) fault of (data, err) \<Rightarrow>
       (case err of
          Some e \<Rightarrow> if code e \<noteq> ''PGRST116'' then (Inl e, w1) else (Inr data, w1)
        | None \<Rightarrow> (Inr data, w1))))"

definition getUserByUsername :: "string \<Rightarrow> world \<Rightarrow> (store_error + user_row option) \<times> world" where
  "getUserByUsername uname w =
     (case next_fault w of (fault, w1) \<Rightarrow>
      (case single (filter (\<lambda>u. name u = uname) (users w1)) fault of (data, err) \<Rightarrow>
       (case err of
          Some e \<Rightarrow> if code e \<noteq> ''PGRST116'' then (Inl e, w1) else (Inr data, w1)
        | None \<Rightarrow> (Inr data, w1))))"

text \<open>
  \<open>updateUser\<close> changes the rows whose \<open>user_id\<close> is \<open>userId\<close> and asks for the one
  changed row back; any error is thrown. When the request matches no row, or more than one
  (which the key on \<open>user_id\<close> excludes), the store answers \<open>PGRST116\<close> and the table
  stays as it was.
\<close>

definition updateUser :: "string \<Rightarrow> field_update list \<Rightarrow> world \<Rightarrow> (store_error + user_row) \<times> world" where
  "updateUser userId updates w =
     (case next_fault w of (fault, w1) \<Rightarrow>
      (case fault of
         Some e \<Rightarrow> (Inl e, w1)
       | None \<Rightarrow>
          (case filter (\<lambda>u. user_id u = userId) (users w1) of
             [u] \<Rightarrow>
               (Inr (apply_updates updates u),
                w1\<lparr>users := map (\<lambda>r. if user_id r = userId then apply_updates updates r else r)
                                  (users w1)\<rparr>)
           | _ \<Rightarrow> (Inl PGRST116, w1))))"

definition createAuditLog :: "audit_row \<Rightarrow> world \<Rightarrow> (store_error + audit_row) \<times> world" where
  "createAuditLog auditData w =
     (case next_fault w of (fault, w1) \<Rightarrow>
      (case fault of
         Some e \<Rightarrow> (Inl e, w1)
       | None \<Rightarrow> (Inr auditData, w1\<lparr>audit_trail := audit_trail w1 @ [auditData]\<rparr>)))"

section \<open>The authentication service (\<open>AuthService\<close>)\<close>

definition storeAuth :: "auth_user \<Rightarrow> token \<Rightarrow> world \<Rightarrow> world" where
  "storeAuth usr tok w =
     w\<lparr>currentUser := Some usr,
       authToken := Some tok,
       localStorage := (localStorage w)(''auth_user'' \<mapsto> Stored_user usr,
                                        ''auth_token'' \<mapsto> Stored_token tok)\<rparr>"

text \<open>\<open>hashPassword\<close>: \<open>bcrypt.hash(password, 12)\<close>, with the salt the library draws.\<close>

definition hashPassword :: "bcrypt \<Rightarrow> string \<Rightarrow> world \<Rightarrow> string \<times> world" where
  "hashPassword bc pw w =
     (let saltRounds = 12 in
      (bcrypt_hash bc pw saltRounds (case salts w of [] \<Rightarrow> [] | s # _ \<Rightarrow> s),
       w\<lparr>salts := tl (salts w)\<rparr>))"

definition verifyPassword :: "bcrypt \<Rightarrow> string \<Rightarrow> string \<Rightarrow> bool" where
  "verifyPassword bc pw h = bcrypt_compare bc pw h"

text \<open>\<open>generateToken\<close> reads the clock twice: for \<open>iat\<close> and for \<open>exp\<close>.\<close>

definition generateToken :: "auth_user \<Rightarrow> world \<Rightarrow> token \<times> world" where
  "generateToken usr w =
     (case read_clock w of (t1, w1) \<Rightarrow>
      (case read_clock w1 of (t2, w2) \<Rightarrow>
       (Token (user_id usr) (role usr) t1 (t2 + 2 * 60 * 60 * 1000), w2)))"

text \<open>
  \<open>logAuditEvent\<close> builds the row (reading the user agent and the clock), hands it to the
  store and swallows the store's error, which goes to the console only. The \<open>details\<close>
  column holds the message that the source wraps as \<open>JSON.stringify({ message })\<close>.
\<close>

definition logAuditEvent :: "string option \<Rightarrow> string \<Rightarrow> string \<Rightarrow> world \<Rightarrow> world" where
  "logAuditEvent userId act det w =
     (case read_clock w of (now, w1) \<Rightarrow>
      (case createAuditLog
              \<lparr>audit_user_id = userId, action = act, details = det,
               ip_address = ''127.0.0.1'', user_agent = navigator_userAgent w1,
               audit_created_at = now\<rparr> w1 of
         (Inl e, w2) \<Rightarrow> console_error ''Failed to log audit event:'' e w2
       | (Inr _, w2) \<Rightarrow> w2))"

text \<open>
  The test of line 110, \<open>user.locked_until && new Date(user.locked_until) > new Date()\<close>:
  the clock is read only when \<open>locked_until\<close> is set.
\<close>

definition is_locked :: "user_row \<Rightarrow> world \<Rightarrow> bool \<times> world" where
  "is_locked usr w =
     (case locked_until usr of
        None \<Rightarrow> (False, w)
      | Some t \<Rightarrow> (case read_clock w of (now, w1) \<Rightarrow> (t > now, w1)))"

text \<open>
  The body of the \<open>try\<close> block of \<open>login\<close>. \<open>Inl e\<close> is the exception \<open>e\<close> thrown out
  of the block, with the world as the calls before it left it.
\<close>

definition login_try :: "bcrypt \<Rightarrow> credentials \<Rightarrow> world \<Rightarrow> (store_error + result) \<times> world" where
  "login_try bc creds w =
     (case getUserByUsername (username creds) w of
        (Inl e, w1) \<Rightarrow> (Inl e, w1)
      | (Inr None, w1) \<Rightarrow>
          (Inr (failure ''Invalid username or password''),
           logAuditEvent None ''LOGIN_FAILED''
             (''Failed login attempt for username: '' @ username creds) w1)
      | (Inr (Some usr), w1) \<Rightarrow>
          if \<not> is_active usr then
            (Inr (failure ''Account is inactive. Please contact administrator.''), w1)
          else
            (case is_locked usr w1 of
               (True, w2) \<Rightarrow>
                 (Inr (failure ''Account is temporarily locked due to too many failed attempts''), w2)
             | (False, w2) \<Rightarrow>
                 if \<not> verifyPassword bc (password creds) (password_hash usr) then
                   (let failedAttempts =
                          (case failed_login_attempts usr of
                             None \<Rightarrow> 0
                           | Some n \<Rightarrow> n) + 1 in
                    (case (if failedAttempts \<ge> 5 then
                             (case read_clock w2 of (now, w3) \<Rightarrow>
                                ([Set_failed_login_attempts failedAttempts,
                                  Set_locked_until (Some (now + 15 * 60 * 1000))], w3))
                           else ([Set_failed_login_attempts failedAttempts], w2)) of
                       (updates, w3) \<Rightarrow>
                         (case updateUser (user_id usr) updates w3 of
                            (Inl e, w4) \<Rightarrow> (Inl e, w4)
                          | (Inr _, w4) \<Rightarrow>
                              (Inr (failure ''Invalid username or password''),
                               logAuditEvent (Some (user_id usr)) ''LOGIN_FAILED''
                                 (''Failed login attempt for user: '' @ name usr) w4))))
                 else
                   (case read_clock w2 of (now, w3) \<Rightarrow>
                    (case updateUser (user_id usr)
                            [Set_failed_login_attempts 0, Set_locked_until None,
                             Set_last_login (Some now)] w3 of
                       (Inl e, w4) \<Rightarrow> (Inl e, w4)
                     | (Inr _, w4) \<Rightarrow>
                         (let authUser =
                                \<lparr>user_id = user_id usr, name = name usr, email = email usr,
                                 role = role usr, whatsapp_number = whatsapp_number usr,
                                 academic_year = academic_year usr,
                                 current_semester = current_semester usr,
                                 is_active = is_active usr,
                                 force_password_change = force_password_change usr,
                                 last_login = last_login usr, created_at = created_at usr\<rparr> in
                          (case generateToken authUser w4 of (tok, w5) \<Rightarrow>
                             (Inr \<lparr>success = True, user = Some authUser, token = Some tok,
                                   tempPassword = None, error = None\<rparr>,
                              logAuditEvent (Some (user_id usr)) ''LOGIN_SUCCESS''
                                ''User logged in successfully'' (storeAuth authUser tok w5))))))))"

text \<open>\<open>login\<close>: the \<open>try\<close> block and its \<open>catch\<close>.\<close>

definition login :: "bcrypt \<Rightarrow> credentials \<Rightarrow> world \<Rightarrow> result \<times> world" where
  "login bc creds w =
     (case login_try bc creds w of
        (Inr r, w1) \<Rightarrow> (r, w1)
      | (Inl e, w1) \<Rightarrow>
          (failure ''Login failed due to system error'', console_error ''Login error:'' e w1))"

definition changePassword_try ::
  "bcrypt \<Rightarrow> string \<Rightarrow> string \<Rightarrow> string \<Rightarrow> world \<Rightarrow> (store_error + result) \<times> world" where
  "changePassword_try bc userId currentPassword newPassword w =
     (case getUserById userId w of
        (Inl e, w1) \<Rightarrow> (Inl e, w1)
      | (Inr None, w1) \<Rightarrow> (Inr (failure ''User not found''), w1)
      | (Inr (Some usr), w1) \<Rightarrow>
          if \<not> verifyPassword bc currentPassword (password_hash usr) then
            (Inr (failure ''Current password is incorrect''), w1)
          else
            (case hashPassword bc newPassword w1 of (hashedNewPassword, w2) \<Rightarrow>
             (case updateUser userId
                     [Set_password_hash hashedNewPassword,
                      Set_force_password_change False] w2 of
                (Inl e, w3) \<Rightarrow> (Inl e, w3)
              | (Inr _, w3) \<Rightarrow>
                  (Inr \<lparr>success = True, user = None, token = None, tempPassword = None,
                        error = None\<rparr>,
                   logAuditEvent (Some userId) ''PASSWORD_CHANGE''
                     ''Password changed successfully'' w3))))"

definition changePassword ::
  "bcrypt \<Rightarrow> string \<Rightarrow> string \<Rightarrow> string \<Rightarrow> world \<Rightarrow> result \<times> world" where
  "changePassword bc userId currentPassword newPassword w =
     (case changePassword_try bc userId currentPassword newPassword w of
        (Inr r, w1) \<Rightarrow> (r, w1)
      | (Inl e, w1) \<Rightarrow>
          (failure ''Failed to change password'',
           console_error ''Change password error:'' e w1))"

subsection \<open>Temporary passwords\<close>

definition chars :: string where
  "chars = ''ABCDEFGHJKMNPQRSTUVWXYZabcdefghijkmnpqrstuvwxyz23456789!@#$%&*''"

text \<open>
  \<open>Math.random()\<close> is a double \<open>k / 2^53\<close> with \<open>k < 2^53\<close>; the model draws \<open>k\<close>. A
  non-negative double is written as its numerator over \<open>2^53\<close>. A double carries 53
  significant bits: with \<open>e = ulp_exponent p\<close>, the number of bits of \<open>p\<close> beyond 53, the
  doubles next to \<open>p / 2^53\<close> have the multiples of \<open>2^e\<close> as numerators. The product of two
  doubles is the exact product rounded to the nearest double, a tie going to the even
  significand (\<open>round_nearest_even\<close>); \<open>double_times k n\<close> is the numerator of
  \<open>(k / 2^53) * n\<close> for an integer \<open>n\<close>, and \<open>Math_floor\<close> takes the integer part.
\<close>

function ulp_exponent :: "nat \<Rightarrow> nat" where
  "ulp_exponent p = (if p < 2 ^ 53 then 0 else Suc (ulp_exponent (p div 2)))"
  by pat_completeness auto
termination
  by (relation "measure id") auto

declare ulp_exponent.simps [simp del]

definition round_nearest_even :: "nat \<Rightarrow> nat" where
  "round_nearest_even p =
     (let e = ulp_exponent p; q = p div 2 ^ e; r = p mod 2 ^ e in
      (if 2 * r > 2 ^ e \<or> (2 * r = 2 ^ e \<and> odd q) then q + 1 else q) * 2 ^ e)"

definition double_times :: "nat \<Rightarrow> nat \<Rightarrow> nat" where
  "double_times k n = round_nearest_even (k * n)"

definition Math_floor :: "nat \<Rightarrow> nat" where
  "Math_floor p = p div 2 ^ 53"

definition Math_random :: "world \<Rightarrow> nat \<times> world" where
  "Math_random w =
     ((case randoms w of [] \<Rightarrow> 0 | k # _ \<Rightarrow> k mod 2 ^ 53), w\<lparr>randoms := tl (randoms w)\<rparr>)"

definition charAt :: "string \<Rightarrow> nat \<Rightarrow> string" where
  "charAt s i = (if i < length s then [s ! i] else [])"

function generateTempPassword_loop :: "nat \<Rightarrow> string \<Rightarrow> world \<Rightarrow> string \<times> world" where
  "generateTempPassword_loop i pw w =
     (if i < 12 then
        (case Math_random w of (k, w1) \<Rightarrow>
           generateTempPassword_loop (i + 1)
             (pw @ charAt chars (Math_floor (double_times k (length chars)))) w1)
      else (pw, w))"
  by pat_completeness auto
termination
  by (relation "measure (\<lambda>(i, pw, w). 12 - i)") auto

definition generateTempPassword :: "world \<Rightarrow> string \<times> world" where
  "generateTempPassword w = generateTempPassword_loop 0 [] w"

text \<open>The actor of an administrative action: \<open>this.currentUser?.user_id || null\<close>.\<close>

definition currentUser_id :: "world \<Rightarrow> string option" where
  "currentUser_id w =
     (case currentUser w of
        None \<Rightarrow> None
      | Some cu \<Rightarrow> if user_id cu = [] then None else Some (user_id cu))"

definition resetUserPassword_try ::
  "bcrypt \<Rightarrow> string \<Rightarrow> world \<Rightarrow> (store_error + result) \<times> world" where
  "resetUserPassword_try bc userId w =
     (case generateTempPassword w of (tempPw, w1) \<Rightarrow>
      (case hashPassword bc tempPw w1 of (hashedPassword, w2) \<Rightarrow>
       (case updateUser userId
               [Set_password_hash hashedPassword, Set_force_password_change True,
                Set_failed_login_attempts 0, Set_locked_until None] w2 of
          (Inl e, w3) \<Rightarrow> (Inl e, w3)
        | (Inr _, w3) \<Rightarrow>
            (Inr \<lparr>success = True, user = None, token = None, tempPassword = Some tempPw,
                  error = None\<rparr>,
             logAuditEvent (currentUser_id w3) ''PASSWORD_RESET''
               (''Reset password for user: '' @ userId) w3))))"

definition resetUserPassword :: "bcrypt \<Rightarrow> string \<Rightarrow> world \<Rightarrow> result \<times> world" where
  "resetUserPassword bc userId w =
     (case resetUserPassword_try bc userId w of
        (Inr r, w1) \<Rightarrow> (r, w1)
      | (Inl e, w1) \<Rightarrow>
          (failure ''Failed to reset password'',
           console_error ''Reset password error:'' e w1))"

section \<open>Vocabulary of the properties\<close>

text \<open>
  \<open>store_answers w\<close>: the store lets its next call through. \<open>store_up w\<close>: it lets every
  scheduled call through. \<open>key_unique w\<close>: \<open>user_id\<close> is a key of the \<open>users\<close> table (the
  store refuses a second row with the same \<open>user_id\<close>; \<open>createUser\<close> reports that as
  \<open>User ID already exists\<close>). \<open>recorded_attempts usr\<close> is the source's
  \<open>user.failed_login_attempts || 0\<close>.
\<close>

definition store_answers :: "world \<Rightarrow> bool" where
  "store_answers w = (fst (next_fault w) = None)"

definition store_up :: "world \<Rightarrow> bool" where
  "store_up w = list_all (\<lambda>f. f = None) (faults w)"

definition key_unique :: "world \<Rightarrow> bool" where
  "key_unique w = distinct (map user_id (users w))"

definition recorded_attempts :: "user_row \<Rightarrow> int" where
  "recorded_attempts usr = (case failed_login_attempts usr of None \<Rightarrow> 0 | Some n \<Rightarrow> n)"

subsection \<open>A sample world\<close>

text \<open>
  A stand-in for the hashing library and a table of five accounts, on which the theorems
  below are instantiated: alice is one failure short of the lockout, bob is inactive, carol's
  lock has run out, dave's lock is running, erin is inactive with a lock that has run out.
\<close>

definition demo_bcrypt :: bcrypt where
  "demo_bcrypt = \<lparr>bcrypt_hash = (\<lambda>pw rounds salt. salt @ ''$'' @ pw),
                  bcrypt_compare = (\<lambda>pw h. drop (length h - Suc (length pw)) h = ''$'' @ pw)\<rparr>"

definition demo_row :: "string \<Rightarrow> string \<Rightarrow> bool \<Rightarrow> int option \<Rightarrow> timestamp option \<Rightarrow> user_row" where
  "demo_row uid nm act n lock =
     \<lparr>user_id = uid, name = nm, email = nm @ ''@example.org'', role = student,
      whatsapp_number = None, academic_year = Some 2024, current_semester = Some 1,
      is_active = act, force_password_change = False, last_login = None,
      created_at = 1000,
      password_hash = ''salt$secret'', failed_login_attempts = n, locked_until = lock\<rparr>"

definition demo_world :: world where
  "demo_world =
     \<lparr>users = [demo_row ''STD-1'' ''alice'' True (Some 4) None,
               demo_row ''STD-2'' ''bob'' False (Some 0) None,
               demo_row ''STD-3'' ''carol'' True (Some 7) (Some 4000),
               demo_row ''STD-4'' ''dave'' True (Some 5) (Some 900000),
               demo_row ''STD-5'' ''erin'' False (Some 7) (Some 4000)],
      audit_trail = [], faults = [], clock = 5000, ticks = [1, 2, 3],
      randoms = [0, 2 ^ 52, 2 ^ 53 - 1], salts = [''pepper''],
      currentUser = None, authToken = None, localStorage = Map.empty, console = [],
      navigator_userAgent = ''Mozilla/5.0''\<rparr>"

text \<open>
  A world with one account, frank, whose password change is still pending; the sample world
  with thirteen values of \<open>Math.random()\<close> to come; and the error of a store that cannot
  be reached.
\<close>

definition pending_world :: world where
  "pending_world =
     demo_world\<lparr>users := [(demo_row ''STD-6'' ''frank'' True (Some 2) None)
                              \<lparr>force_password_change := True\<rparr>]\<rparr>"

definition draw_world :: world where
  "draw_world =
     demo_world\<lparr>randoms := [0, 4648877034705028, 2 ^ 53 - 1, 2 ^ 52, 1234567890123456,
                             987654321098765, 5000000000000000, 7777777777777777,
                             3141592653589793, 2718281828459045, 1618033988749894,
                             8999999999999999, 42]\<rparr>"

definition connection_failure :: store_error where
  "connection_failure = \<lparr>code = ''08006'', message = ''connection failure''\<rparr>"

section \<open>Frame and path lemmas\<close>

lemma read_clock_frame [simp]:
  "fst (read_clock w) = clock w"
  "users (snd (read_clock w)) = users w"
  "faults (snd (read_clock w)) = faults w"
  "audit_trail (snd (read_clock w)) = audit_trail w"
  by (simp_all add: read_clock_def)

lemma next_fault_frame [simp]:
  "users (snd (next_fault w)) = users w"
  "audit_trail (snd (next_fault w)) = audit_trail w"
  "clock (snd (next_fault w)) = clock w"
  "faults (snd (next_fault w)) = tl (faults w)"
  by (simp_all add: next_fault_def split: list.splits)

lemma store_answers_faults:
  "faults a = faults b \<Longrightarrow> store_answers a = store_answers b"
  by (simp add: store_answers_def next_fault_def split: list.splits)

lemma store_up_next:
  "store_up w \<Longrightarrow> store_answers w \<and> store_up (snd (next_fault w))"
  by (cases "faults w") (simp_all add: store_up_def store_answers_def next_fault_def)

lemma store_up_faults:
  "faults a = faults b \<Longrightarrow> store_up a = store_up b"
  by (simp add: store_up_def)

lemma is_locked_frame [simp]:
  "users (snd (is_locked usr w)) = users w"
  "faults (snd (is_locked usr w)) = faults w"
  "audit_trail (snd (is_locked usr w)) = audit_trail w"
  by (simp_all add: is_locked_def read_clock_def split: option.splits)

lemma unique_key_filter:
  "distinct (map user_id xs) \<Longrightarrow> u \<in> set xs \<Longrightarrow> filter (\<lambda>r. user_id r = user_id u) xs = [u]"
proof (induction xs)
  case Nil
  then show ?case by simp
next
  case (Cons x xs)
  show ?case
  proof (cases "x = u")
    case True
    from Cons.prems(1) have "user_id u \<notin> user_id ` set xs" using True by simp
    then have "filter (\<lambda>r. user_id r = user_id u) xs = []"
      by (auto simp: filter_empty_conv intro: rev_image_eqI)
    with True show ?thesis by simp
  next
    case False
    with Cons.prems have in_xs: "u \<in> set xs" by simp
    from Cons.prems(1) have "user_id x \<notin> user_id ` set xs" by simp
    with in_xs have "user_id x \<noteq> user_id u" by auto
    with Cons.IH Cons.prems(1) in_xs show ?thesis by simp
  qed
qed

lemma getUserByUsername_found:
  assumes "getUserByUsername uname w = (Inr (Some usr), w1)"
  shows "w1 = snd (next_fault w)" and "store_answers w"
    and "filter (\<lambda>u. name u = uname) (users w) = [usr]"
proof -
  obtain f w' where nf: "next_fault w = (f, w')" by (cases "next_fault w")
  then have u: "users w' = users w" using next_fault_frame(1) [of w] by simp
  from assms nf u show "w1 = snd (next_fault w)" and "store_answers w"
    and "filter (\<lambda>u. name u = uname) (users w) = [usr]"
    by (auto simp: getUserByUsername_def single_def store_answers_def
             split: option.splits list.splits if_splits)
qed

lemma found_in_table:
  assumes "getUserByUsername uname w = (Inr (Some usr), w1)"
  shows "usr \<in> set (users w)" and "users w1 = users w" and "audit_trail w1 = audit_trail w"
    and "faults w1 = tl (faults w)"
proof -
  have "usr \<in> set (filter (\<lambda>u. name u = uname) (users w))"
    using getUserByUsername_found(3) [OF assms] by simp
  then show "usr \<in> set (users w)" by simp
  show "users w1 = users w" "audit_trail w1 = audit_trail w" "faults w1 = tl (faults w)"
    using getUserByUsername_found(1) [OF assms] by simp_all
qed

lemma updateUser_ok:
  assumes "store_answers w" and "filter (\<lambda>u. user_id u = userId) (users w) = [u]"
  shows "updateUser userId updates w =
           (Inr (apply_updates updates u),
            (snd (next_fault w))\<lparr>users := map (\<lambda>r. if user_id r = userId
                                                   then apply_updates updates r else r) (users w)\<rparr>)"
proof -
  obtain f w' where nf: "next_fault w = (f, w')" by (cases "next_fault w")
  then have u: "users w' = users w" using next_fault_frame(1) [of w] by simp
  from assms nf u show ?thesis
    by (simp add: updateUser_def store_answers_def)
qed

lemma logAuditEvent_frame [simp]:
  "users (logAuditEvent userId act det w) = users w"
  by (auto simp: logAuditEvent_def createAuditLog_def console_error_def next_fault_def read_clock_def
           split: prod.splits sum.splits option.splits list.splits)

lemma logAuditEvent_trail:
  "audit_trail (logAuditEvent userId act det w) =
     audit_trail w @
       (if store_answers w
        then [\<lparr>audit_user_id = userId, action = act, details = det, ip_address = ''127.0.0.1'',
               user_agent = navigator_userAgent w, audit_created_at = clock w\<rparr>]
        else [])"
  by (auto simp: logAuditEvent_def createAuditLog_def console_error_def next_fault_def read_clock_def
                store_answers_def
           split: prod.splits sum.splits option.splits list.splits)


lemma key_unique_row:
  assumes "key_unique w" and "u \<in> set (users w)" and "r \<in> set (users w)"
    and "user_id r = user_id u"
  shows "r = u"
proof -
  from assms(1) have "inj_on user_id (set (users w))"
    by (simp add: key_unique_def distinct_map)
  with assms(2-4) show ?thesis by (simp add: inj_on_def)
qed

lemma replace_row:
  assumes "key_unique w" and "u \<in> set (users w)"
  shows "map (\<lambda>r. if user_id r = user_id u then f r else r) (users w) =
         map (\<lambda>r. if r = u then f u else r) (users w)"
proof (rule map_cong [OF refl])
  fix r assume "r \<in> set (users w)"
  then show "(if user_id r = user_id u then f r else r) = (if r = u then f u else r)"
    using key_unique_row [OF assms(1) assms(2)] by auto
qed

lemma apply_updates_simps [simp]:
  "apply_updates [] u = u"
  "apply_updates (x # xs) u = apply_updates xs (apply_update x u)"
  by (simp_all add: apply_updates_def)

lemma login_try_absent:
  assumes "getUserByUsername (username creds) w = (Inr None, w1)"
  shows "login_try bc creds w =
           (Inr (failure ''Invalid username or password''),
            logAuditEvent None ''LOGIN_FAILED''
              (''Failed login attempt for username: '' @ username creds) w1)"
  using assms by (simp add: login_try_def)

lemma login_try_thrown:
  assumes "getUserByUsername (username creds) w = (Inl e, w1)"
  shows "login_try bc creds w = (Inl e, w1)"
  using assms by (simp add: login_try_def)

lemma login_try_inactive:
  assumes "getUserByUsername (username creds) w = (Inr (Some usr), w1)"
    and "\<not> is_active usr"
  shows "login_try bc creds w =
           (Inr (failure ''Account is inactive. Please contact administrator.''), w1)"
  using assms by (simp add: login_try_def)

lemma login_try_locked:
  assumes "getUserByUsername (username creds) w = (Inr (Some usr), w1)"
    and "is_active usr" and "is_locked usr w1 = (True, w2)"
  shows "login_try bc creds w =
           (Inr (failure ''Account is temporarily locked due to too many failed attempts''), w2)"
  using assms by (simp add: login_try_def)

lemma login_try_wrong_password:
  assumes "getUserByUsername (username creds) w = (Inr (Some usr), w1)"
    and "is_active usr" and "is_locked usr w1 = (False, w2)"
    and "\<not> verifyPassword bc (password creds) (password_hash usr)"
  shows "login_try bc creds w =
           (case updateUser (user_id usr)
                   (if recorded_attempts usr + 1 \<ge> 5
                    then [Set_failed_login_attempts (recorded_attempts usr + 1),
                          Set_locked_until (Some (clock w2 + 15 * 60 * 1000))]
                    else [Set_failed_login_attempts (recorded_attempts usr + 1)])
                   (if recorded_attempts usr + 1 \<ge> 5 then snd (read_clock w2) else w2) of
              (Inl e, w4) \<Rightarrow> (Inl e, w4)
            | (Inr _, w4) \<Rightarrow>
                (Inr (failure ''Invalid username or password''),
                 logAuditEvent (Some (user_id usr)) ''LOGIN_FAILED''
                   (''Failed login attempt for user: '' @ name usr) w4))"
  using assms
  by (simp add: login_try_def recorded_attempts_def Let_def read_clock_def split: prod.splits)

lemma login_try_right_password:
  assumes "getUserByUsername (username creds) w = (Inr (Some usr), w1)"
    and "is_active usr" and "is_locked usr w1 = (False, w2)"
    and "verifyPassword bc (password creds) (password_hash usr)"
    and "updateUser (user_id usr)
           [Set_failed_login_attempts 0, Set_locked_until None, Set_last_login (Some (clock w2))]
           (snd (read_clock w2)) = (Inr row, w4)"
    and "authUser = \<lparr>user_id = user_id usr, name = name usr, email = email usr,
                       role = role usr, whatsapp_number = whatsapp_number usr,
                       academic_year = academic_year usr,
                       current_semester = current_semester usr,
                       is_active = is_active usr,
                       force_password_change = force_password_change usr,
                       last_login = last_login usr, created_at = created_at usr\<rparr>"
  shows "login_try bc creds w =
           (Inr \<lparr>success = True, user = Some authUser,
                 token = Some (fst (generateToken authUser w4)),
                 tempPassword = None, error = None\<rparr>,
            logAuditEvent (Some (user_id usr)) ''LOGIN_SUCCESS'' ''User logged in successfully''
              (storeAuth authUser (fst (generateToken authUser w4))
                 (snd (generateToken authUser w4))))"
  using assms
  by (simp add: login_try_def Let_def read_clock_def split: prod.splits)

lemma store_up_tl:
  "store_up w \<Longrightarrow> faults v = tl (faults w) \<Longrightarrow> store_up v"
  by (cases "faults w") (simp_all add: store_up_def)

lemma store_up_answers:
  "store_up w \<Longrightarrow> store_answers w"
  by (simp add: store_up_next)

lemma generateToken_frame [simp]:
  "users (snd (generateToken a w)) = users w"
  "faults (snd (generateToken a w)) = faults w"
  "audit_trail (snd (generateToken a w)) = audit_trail w"
  by (simp_all add: generateToken_def read_clock_def split: prod.splits)

lemma generateToken_token [simp]:
  "token_user_id (fst (generateToken a w)) = user_id a"
  "token_role (fst (generateToken a w)) = role a"
  by (simp_all add: generateToken_def read_clock_def split: prod.splits)

lemma storeAuth_frame [simp]:
  "users (storeAuth a t w) = users w"
  "faults (storeAuth a t w) = faults w"
  "audit_trail (storeAuth a t w) = audit_trail w"
  by (simp_all add: storeAuth_def)

text \<open>The wrong-password path of \<open>login\<close>, when the store takes the write.\<close>

lemma login_wrong_password:
  assumes lookup: "getUserByUsername (username creds) w = (Inr (Some usr), w1)"
    and key: "key_unique w"
    and active: "is_active usr"
    and unlocked: "is_locked usr w1 = (False, w2)"
    and wrong: "\<not> verifyPassword bc (password creds) (password_hash usr)"
    and wr: "store_answers w1"
  shows "\<exists>w4. login bc creds w =
                 (failure ''Invalid username or password'',
                  logAuditEvent (Some (user_id usr)) ''LOGIN_FAILED''
                    (''Failed login attempt for user: '' @ name usr) w4)
              \<and> users w4 =
                  map (\<lambda>r. if r = usr
                           then usr\<lparr>failed_login_attempts := Some (recorded_attempts usr + 1),
                                    locked_until :=
                                      (if recorded_attempts usr + 1 \<ge> 5
                                       then Some (clock w2 + 15 * 60 * 1000)
                                       else locked_until usr)\<rparr>
                           else r) (users w)
              \<and> audit_trail w4 = audit_trail w
              \<and> faults w4 = tl (faults w1)"
proof -
  let ?n = "recorded_attempts usr + 1"
  let ?ups = "if ?n \<ge> 5
              then [Set_failed_login_attempts ?n, Set_locked_until (Some (clock w2 + 15 * 60 * 1000))]
              else [Set_failed_login_attempts ?n]"
  let ?w3 = "if ?n \<ge> 5 then snd (read_clock w2) else w2"
  let ?w4 = "(snd (next_fault ?w3))\<lparr>users := map (\<lambda>r. if user_id r = user_id usr
                                                      then apply_updates ?ups r else r) (users ?w3)\<rparr>"
  have w2: "w2 = snd (is_locked usr w1)" using unlocked by simp
  have tbl: "usr \<in> set (users w)" "users w1 = users w" "audit_trail w1 = audit_trail w"
    using found_in_table [OF lookup] by simp_all
  have w3: "users ?w3 = users w" "faults ?w3 = faults w1" "audit_trail ?w3 = audit_trail w"
    using tbl w2 by simp_all
  have ans: "store_answers ?w3"
    using store_answers_faults [OF w3(2)] wr by simp
  have one: "filter (\<lambda>u. user_id u = user_id usr) (users ?w3) = [usr]"
    using unique_key_filter [of "users w" usr] key tbl(1) w3(1) by (simp add: key_unique_def)
  have upd: "updateUser (user_id usr) ?ups ?w3 = (Inr (apply_updates ?ups usr), ?w4)"
    by (rule updateUser_ok [OF ans one])
  have body: "login_try bc creds w =
               (Inr (failure ''Invalid username or password''),
                logAuditEvent (Some (user_id usr)) ''LOGIN_FAILED''
                  (''Failed login attempt for user: '' @ name usr) ?w4)"
    unfolding login_try_wrong_password [OF lookup active unlocked wrong] upd by simp
  have users4: "users ?w4 =
                  map (\<lambda>r. if r = usr
                           then usr\<lparr>failed_login_attempts := Some ?n,
                                    locked_until :=
                                      (if ?n \<ge> 5 then Some (clock w2 + 15 * 60 * 1000)
                                       else locked_until usr)\<rparr>
                           else r) (users w)"
    using replace_row [OF key tbl(1), of "apply_updates ?ups"] w3(1) by simp
  have "login bc creds w =
          (failure ''Invalid username or password'',
           logAuditEvent (Some (user_id usr)) ''LOGIN_FAILED''
             (''Failed login attempt for user: '' @ name usr) ?w4)"
    by (simp add: login_def body)
  moreover have "audit_trail ?w4 = audit_trail w" using w3(3) by simp
  moreover have "faults ?w4 = tl (faults w1)" using w3(2) by simp
  ultimately show ?thesis using users4 by blast
qed


text \<open>The right-password path of \<open>login\<close>, when the store takes the write.\<close>

lemma login_right_password:
  assumes lookup: "getUserByUsername (username creds) w = (Inr (Some usr), w1)"
    and key: "key_unique w"
    and active: "is_active usr"
    and unlocked: "is_locked usr w1 = (False, w2)"
    and right: "verifyPassword bc (password creds) (password_hash usr)"
    and wr: "store_answers w1"
  shows "\<exists>w4 tok. login bc creds w =
                 (\<lparr>success = True,
                   user = Some \<lparr>user_id = user_id usr, name = name usr, email = email usr,
                                role = role usr, whatsapp_number = whatsapp_number usr,
                                academic_year = academic_year usr,
                                current_semester = current_semester usr,
                                is_active = is_active usr,
                                force_password_change = force_password_change usr,
                                last_login = last_login usr, created_at = created_at usr\<rparr>,
                   token = Some tok, tempPassword = None, error = None\<rparr>,
                  logAuditEvent (Some (user_id usr)) ''LOGIN_SUCCESS''
                    ''User logged in successfully'' w4)
              \<and> token_user_id tok = user_id usr \<and> token_role tok = role usr
              \<and> users w4 =
                  map (\<lambda>r. if r = usr
                           then usr\<lparr>failed_login_attempts := Some 0, locked_until := None,
                                    last_login := Some (clock w2)\<rparr>
                           else r) (users w)
              \<and> audit_trail w4 = audit_trail w
              \<and> faults w4 = tl (faults w1)"
proof -
  let ?ups = "[Set_failed_login_attempts 0, Set_locked_until None, Set_last_login (Some (clock w2))]"
  let ?w3 = "snd (read_clock w2)"
  let ?w4 = "(snd (next_fault ?w3))\<lparr>users := map (\<lambda>r. if user_id r = user_id usr
                                                      then apply_updates ?ups r else r) (users ?w3)\<rparr>"
  let ?a = "\<lparr>user_id = user_id usr, name = name usr, email = email usr,
             role = role usr, whatsapp_number = whatsapp_number usr,
             academic_year = academic_year usr, current_semester = current_semester usr,
             is_active = is_active usr, force_password_change = force_password_change usr,
             last_login = last_login usr, created_at = created_at usr\<rparr>"
  let ?tok = "fst (generateToken ?a ?w4)"
  let ?w6 = "storeAuth ?a ?tok (snd (generateToken ?a ?w4))"
  have w2: "w2 = snd (is_locked usr w1)" using unlocked by simp
  have tbl: "usr \<in> set (users w)" "users w1 = users w" "audit_trail w1 = audit_trail w"
    using found_in_table [OF lookup] by simp_all
  have w3: "users ?w3 = users w" "faults ?w3 = faults w1" "audit_trail ?w3 = audit_trail w"
    using tbl w2 by simp_all
  have ans: "store_answers ?w3"
    using store_answers_faults [OF w3(2)] wr by simp
  have one: "filter (\<lambda>u. user_id u = user_id usr) (users ?w3) = [usr]"
    using unique_key_filter [of "users w" usr] key tbl(1) w3(1) by (simp add: key_unique_def)
  have upd: "updateUser (user_id usr) ?ups ?w3 = (Inr (apply_updates ?ups usr), ?w4)"
    by (rule updateUser_ok [OF ans one])
  have body: "login_try bc creds w =
               (Inr \<lparr>success = True, user = Some ?a, token = Some ?tok,
                     tempPassword = None, error = None\<rparr>,
                logAuditEvent (Some (user_id usr)) ''LOGIN_SUCCESS''
                  ''User logged in successfully'' ?w6)"
    by (rule login_try_right_password [OF lookup active unlocked right upd refl])
  have users4: "users ?w6 =
                  map (\<lambda>r. if r = usr
                           then usr\<lparr>failed_login_attempts := Some 0, locked_until := None,
                                    last_login := Some (clock w2)\<rparr>
                           else r) (users w)"
    using replace_row [OF key tbl(1), of "apply_updates ?ups"] w3(1) by simp
  have "login bc creds w =
          (\<lparr>success = True, user = Some ?a, token = Some ?tok, tempPassword = None, error = None\<rparr>,
           logAuditEvent (Some (user_id usr)) ''LOGIN_SUCCESS'' ''User logged in successfully'' ?w6)"
    by (simp add: login_def body)
  moreover have "audit_trail ?w6 = audit_trail w" using w3(3) by simp
  moreover have "faults ?w6 = tl (faults w1)" using w3(2) by simp
  moreover have "token_user_id ?tok = user_id usr" "token_role ?tok = role usr" by simp_all
  ultimately show ?thesis using users4 by blast
qed

lemma updateUser_inv:
  assumes "updateUser userId updates v = (Inr row, v')"
  shows "store_answers v"
    and "\<exists>u. filter (\<lambda>u. user_id u = userId) (users v) = [u] \<and> row = apply_updates updates u"
    and "users v' = map (\<lambda>r. if user_id r = userId then apply_updates updates r else r) (users v)"
    and "audit_trail v' = audit_trail v" and "faults v' = tl (faults v)"
proof -
  obtain f x where nf: "next_fault v = (f, x)" by (cases "next_fault v")
  then have u: "users x = users v" "audit_trail x = audit_trail v" "faults x = tl (faults v)"
    using next_fault_frame [of v] by simp_all
  from assms nf u show "store_answers v"
    and "\<exists>u. filter (\<lambda>u. user_id u = userId) (users v) = [u] \<and> row = apply_updates updates u"
    and "users v' = map (\<lambda>r. if user_id r = userId then apply_updates updates r else r) (users v)"
    and "audit_trail v' = audit_trail v" and "faults v' = tl (faults v)"
    by (auto simp: updateUser_def store_answers_def split: option.splits list.splits)
qed

lemma login_success_inv:
  assumes "login bc creds w = (r, w')" and "success r"
  shows "\<exists>usr w1 w2 row w4.
           getUserByUsername (username creds) w = (Inr (Some usr), w1)
         \<and> is_active usr \<and> is_locked usr w1 = (False, w2)
         \<and> verifyPassword bc (password creds) (password_hash usr)
         \<and> updateUser (user_id usr)
               [Set_failed_login_attempts 0, Set_locked_until None, Set_last_login (Some (clock w2))]
               (snd (read_clock w2)) = (Inr row, w4)"
  using assms
  by (auto simp: login_def login_try_def failure_def Let_def read_clock_def
           split: prod.splits sum.splits option.splits if_splits bool.splits)

lemma is_locked_iff:
  "fst (is_locked usr w) \<longleftrightarrow> (\<exists>t. locked_until usr = Some t \<and> clock w < t)"
  by (simp add: is_locked_def read_clock_def split: option.splits)

lemma found_clock:
  assumes "getUserByUsername uname w = (Inr (Some usr), w1)"
  shows "clock w1 = clock w"
  using getUserByUsername_found(1) [OF assms] by simp

subsection \<open>The sample world, evaluated\<close>

lemma demo_lookup:
  "getUserByUsername ''alice'' demo_world =
     (Inr (Some (demo_row ''STD-1'' ''alice'' True (Some 4) None)), demo_world)"
  "getUserByUsername ''bob'' demo_world =
     (Inr (Some (demo_row ''STD-2'' ''bob'' False (Some 0) None)), demo_world)"
  "getUserByUsername ''carol'' demo_world =
     (Inr (Some (demo_row ''STD-3'' ''carol'' True (Some 7) (Some 4000))), demo_world)"
  "getUserByUsername ''dave'' demo_world =
     (Inr (Some (demo_row ''STD-4'' ''dave'' True (Some 5) (Some 900000))), demo_world)"
  "getUserByUsername ''erin'' demo_world =
     (Inr (Some (demo_row ''STD-5'' ''erin'' False (Some 7) (Some 4000))), demo_world)"
  "getUserByUsername ''mallory'' demo_world = (Inr None, demo_world)"
  by (simp_all add: getUserByUsername_def next_fault_def single_def demo_world_def demo_row_def
                    PGRST116_def)

lemma demo_key_unique: "key_unique demo_world"
  by (simp add: key_unique_def demo_world_def demo_row_def)

lemma demo_store: "store_answers demo_world" "store_up demo_world"
  by (simp_all add: store_answers_def store_up_def next_fault_def demo_world_def)

section \<open>Login: the short-circuit paths write nothing\<close>

text \<open>
  C4. When the lookup answers with an account that is inactive, or whose \<open>locked_until\<close> is
  strictly later than the clock, a login attempt with any password leaves the \<open>users\<close> table
  exactly as it was: no field of any stored account changes, and the failure counter is
  not incremented.
\<close>

theorem login_inactive_or_locked_no_mutation:
  assumes "getUserByUsername (username creds) w = (Inr (Some usr), w1)"
    and "\<not> is_active usr \<or> (\<exists>t. locked_until usr = Some t \<and> clock w < t)"
  shows "users (snd (login bc creds w)) = users w"
proof (cases "is_active usr")
  case False
  then show ?thesis
    using login_try_inactive [OF assms(1)] found_in_table(2) [OF assms(1)]
    by (simp add: login_def failure_def)
next
  case True
  with assms(2) have "fst (is_locked usr w1)"
    by (simp add: is_locked_iff found_clock [OF assms(1)])
  then have l: "is_locked usr w1 = (True, snd (is_locked usr w1))"
    by (cases "is_locked usr w1") simp
  show ?thesis
    using login_try_locked [OF assms(1) True l] found_in_table(2) [OF assms(1)]
    by (simp add: login_def failure_def)
qed

text \<open>On the sample world: bob is inactive, dave is locked until 900000 and the clock reads 5000.\<close>

theorem login_inactive_or_locked_no_mutation_witness:
  "getUserByUsername ''bob'' demo_world =
     (Inr (Some (demo_row ''STD-2'' ''bob'' False (Some 0) None)), demo_world)
   \<and> \<not> is_active (demo_row ''STD-2'' ''bob'' False (Some 0) None)
   \<and> users (snd (login demo_bcrypt \<lparr>username = ''bob'', password = ''secret''\<rparr> demo_world))
     = users demo_world
   \<and> getUserByUsername ''dave'' demo_world =
     (Inr (Some (demo_row ''STD-4'' ''dave'' True (Some 5) (Some 900000))), demo_world)
   \<and> locked_until (demo_row ''STD-4'' ''dave'' True (Some 5) (Some 900000)) = Some 900000
   \<and> clock demo_world < 900000
   \<and> users (snd (login demo_bcrypt \<lparr>username = ''dave'', password = ''secret''\<rparr> demo_world))
     = users demo_world"
proof -
  have bob: "\<not> is_active (demo_row ''STD-2'' ''bob'' False (Some 0) None)"
    by (simp add: demo_row_def)
  have dave: "locked_until (demo_row ''STD-4'' ''dave'' True (Some 5) (Some 900000)) = Some 900000"
    "clock demo_world < 900000"
    by (simp_all add: demo_row_def demo_world_def)
  show ?thesis
    using login_inactive_or_locked_no_mutation
            [of "\<lparr>username = ''bob'', password = ''secret''\<rparr>" demo_world _ _ demo_bcrypt]
          login_inactive_or_locked_no_mutation
            [of "\<lparr>username = ''dave'', password = ''secret''\<rparr>" demo_world _ _ demo_bcrypt]
          demo_lookup(2) demo_lookup(4) bob dave
    by simp
qed

lemmas demo_defs = login_def login_try_def getUserByUsername_def updateUser_def createAuditLog_def
  logAuditEvent_def is_locked_def verifyPassword_def next_fault_def read_clock_def single_def
  console_error_def storeAuth_def generateToken_def failure_def PGRST116_def
  demo_world_def demo_row_def demo_bcrypt_def

section \<open>Login: a wrong password is counted, and the fifth locks the account\<close>

lemma login_locked_outcome:
  assumes "getUserByUsername (username creds) w = (Inr (Some usr), w1)"
    and "is_active usr" and "locked_until usr = Some t" and "clock w < t"
  shows "fst (login bc creds w) =
           failure ''Account is temporarily locked due to too many failed attempts''"
proof -
  have "fst (is_locked usr w1)"
    using assms(3,4) by (simp add: is_locked_iff found_clock [OF assms(1)])
  then have l: "is_locked usr w1 = (True, snd (is_locked usr w1))"
    by (cases "is_locked usr w1") simp
  show ?thesis
    using login_try_locked [OF assms(1,2) l] by (simp add: login_def)
qed

text \<open>
  C1, amended. The claim as written speaks of every account below the threshold with no lock
  in the future; an inactive account is such an account and its failures are not counted
  (see the counterexample below). For an \<^emph>\<open>active\<close> account it holds, when the store takes
  the write and \<open>user_id\<close> is a key of the table:

  the lookup answers with the active account \<open>usr\<close>, the lock test of the source says
  not locked and leaves the world \<open>w2\<close>, fewer than 5 failures are recorded and the password
  is wrong. Then the attempt returns the invalid-credentials outcome; the stored row of \<open>usr\<close>
  has its counter raised by exactly one and, when the new count is 5 or more, \<open>locked_until\<close>
  set to the reading of the clock at that moment (\<open>clock w2\<close>) plus 15 minutes; every other
  row is untouched. And in any world, an attempt on an active account whose \<open>locked_until\<close>
  is strictly later than the clock returns the account-locked outcome, whatever the
  password.
\<close>

theorem wrong_password_counts_then_locks:
  assumes lookup: "getUserByUsername (username creds) w = (Inr (Some usr), w1)"
    and key: "key_unique w"
    and active: "is_active usr"
    and unlocked: "is_locked usr w1 = (False, w2)"
    and few: "recorded_attempts usr < 5"
    and wrong: "\<not> verifyPassword bc (password creds) (password_hash usr)"
    and wr: "store_answers w1"
  shows "fst (login bc creds w) = failure ''Invalid username or password''
       \<and> users (snd (login bc creds w)) =
           map (\<lambda>r. if r = usr
                    then usr\<lparr>failed_login_attempts := Some (recorded_attempts usr + 1),
                             locked_until :=
                               (if recorded_attempts usr + 1 \<ge> 5
                                then Some (clock w2 + 15 * 60 * 1000)
                                else locked_until usr)\<rparr>
                    else r) (users w)
       \<and> (\<forall>creds' v v1 usr' t.
             getUserByUsername (username creds') v = (Inr (Some usr'), v1) \<longrightarrow>
             is_active usr' \<longrightarrow> locked_until usr' = Some t \<longrightarrow> clock v < t \<longrightarrow>
             fst (login bc creds' v) =
               failure ''Account is temporarily locked due to too many failed attempts'')"
proof -
  from login_wrong_password [OF lookup key active unlocked wrong wr]
  obtain w4 where
    "login bc creds w =
       (failure ''Invalid username or password'',
        logAuditEvent (Some (user_id usr)) ''LOGIN_FAILED''
          (''Failed login attempt for user: '' @ name usr) w4)"
    and "users w4 =
           map (\<lambda>r. if r = usr
                    then usr\<lparr>failed_login_attempts := Some (recorded_attempts usr + 1),
                             locked_until :=
                               (if recorded_attempts usr + 1 \<ge> 5
                                then Some (clock w2 + 15 * 60 * 1000)
                                else locked_until usr)\<rparr>
                    else r) (users w)"
    by blast
  then have "fst (login bc creds w) = failure ''Invalid username or password''"
    and "users (snd (login bc creds w)) =
           map (\<lambda>r. if r = usr
                    then usr\<lparr>failed_login_attempts := Some (recorded_attempts usr + 1),
                             locked_until :=
                               (if recorded_attempts usr + 1 \<ge> 5
                                then Some (clock w2 + 15 * 60 * 1000)
                                else locked_until usr)\<rparr>
                    else r) (users w)"
    by simp_all
  then show ?thesis using login_locked_outcome by blast
qed

text \<open>
  On the sample world: alice has 4 recorded failures; a wrong password makes it 5 and locks
  the account until 905000; the correct password straight after is refused as locked.
\<close>

theorem wrong_password_counts_then_locks_witness:
  "getUserByUsername ''alice'' demo_world =
     (Inr (Some (demo_row ''STD-1'' ''alice'' True (Some 4) None)), demo_world)
   \<and> key_unique demo_world
   \<and> is_active (demo_row ''STD-1'' ''alice'' True (Some 4) None)
   \<and> is_locked (demo_row ''STD-1'' ''alice'' True (Some 4) None) demo_world = (False, demo_world)
   \<and> recorded_attempts (demo_row ''STD-1'' ''alice'' True (Some 4) None) < 5
   \<and> \<not> verifyPassword demo_bcrypt ''wrong''
         (password_hash (demo_row ''STD-1'' ''alice'' True (Some 4) None))
   \<and> store_answers demo_world
   \<and> fst (login demo_bcrypt \<lparr>username = ''alice'', password = ''wrong''\<rparr> demo_world)
       = failure ''Invalid username or password''
   \<and> map (\<lambda>r. (failed_login_attempts r, locked_until r))
         (users (snd (login demo_bcrypt \<lparr>username = ''alice'', password = ''wrong''\<rparr> demo_world)))
       = [(Some 5, Some 905000), (Some 0, None), (Some 7, Some 4000), (Some 5, Some 900000),
          (Some 7, Some 4000)]
   \<and> verifyPassword demo_bcrypt ''secret''
         (password_hash (demo_row ''STD-1'' ''alice'' True (Some 4) None))
   \<and> fst (login demo_bcrypt \<lparr>username = ''alice'', password = ''secret''\<rparr>
            (snd (login demo_bcrypt \<lparr>username = ''alice'', password = ''wrong''\<rparr> demo_world)))
       = failure ''Account is temporarily locked due to too many failed attempts''"
proof -
  let ?alice = "demo_row ''STD-1'' ''alice'' True (Some 4) None"
  let ?after = "snd (login demo_bcrypt \<lparr>username = ''alice'', password = ''wrong''\<rparr> demo_world)"
  have h: "is_active ?alice" "is_locked ?alice demo_world = (False, demo_world)"
    "recorded_attempts ?alice < 5"
    "\<not> verifyPassword demo_bcrypt ''wrong'' (password_hash ?alice)"
    "verifyPassword demo_bcrypt ''secret'' (password_hash ?alice)"
    by (simp_all add: demo_row_def is_locked_def recorded_attempts_def verifyPassword_def
                      demo_bcrypt_def)
  have later: "getUserByUsername ''alice'' ?after =
                 (Inr (Some (?alice\<lparr>failed_login_attempts := Some 5, locked_until := Some 905000\<rparr>)),
                  snd (next_fault ?after))"
    "clock ?after < 905000"
    by (simp_all add: demo_defs)
  have t: "fst (login demo_bcrypt \<lparr>username = ''alice'', password = ''wrong''\<rparr> demo_world)
             = failure ''Invalid username or password''
         \<and> users ?after =
             map (\<lambda>r. if r = ?alice
                      then ?alice\<lparr>failed_login_attempts := Some (recorded_attempts ?alice + 1),
                                  locked_until :=
                                    (if recorded_attempts ?alice + 1 \<ge> 5
                                     then Some (clock demo_world + 15 * 60 * 1000)
                                     else locked_until ?alice)\<rparr>
                      else r) (users demo_world)
         \<and> (\<forall>creds' v v1 usr' t.
               getUserByUsername (username creds') v = (Inr (Some usr'), v1) \<longrightarrow>
               is_active usr' \<longrightarrow> locked_until usr' = Some t \<longrightarrow> clock v < t \<longrightarrow>
               fst (login demo_bcrypt creds' v) =
                 failure ''Account is temporarily locked due to too many failed attempts'')"
    using wrong_password_counts_then_locks
            [of "\<lparr>username = ''alice'', password = ''wrong''\<rparr>" demo_world ?alice demo_world
                demo_world demo_bcrypt]
          demo_lookup(1) demo_key_unique h(1-4) demo_store(1)
    by simp
  then have "fst (login demo_bcrypt \<lparr>username = ''alice'', password = ''secret''\<rparr> ?after)
               = failure ''Account is temporarily locked due to too many failed attempts''"
    using later by (auto simp: demo_row_def)
  moreover have "map (\<lambda>r. (failed_login_attempts r, locked_until r)) (users ?after)
       = [(Some 5, Some 905000), (Some 0, None), (Some 7, Some 4000), (Some 5, Some 900000),
          (Some 7, Some 4000)]"
    using t by (simp add: demo_world_def demo_row_def recorded_attempts_def)
  ultimately show ?thesis
    using t demo_lookup(1) demo_key_unique h demo_store(1) by simp
qed

text \<open>An inactive account below the threshold: the wrong password is not counted.\<close>

theorem wrong_password_on_inactive_account_counterexample:
  "getUserByUsername ''bob'' demo_world =
     (Inr (Some (demo_row ''STD-2'' ''bob'' False (Some 0) None)), demo_world)
   \<and> recorded_attempts (demo_row ''STD-2'' ''bob'' False (Some 0) None) < 5
   \<and> locked_until (demo_row ''STD-2'' ''bob'' False (Some 0) None) = None
   \<and> \<not> verifyPassword demo_bcrypt ''wrong''
         (password_hash (demo_row ''STD-2'' ''bob'' False (Some 0) None))
   \<and> store_up demo_world
   \<and> users (snd (login demo_bcrypt \<lparr>username = ''bob'', password = ''wrong''\<rparr> demo_world))
       = users demo_world
   \<and> fst (login demo_bcrypt \<lparr>username = ''bob'', password = ''wrong''\<rparr> demo_world)
       = failure ''Account is inactive. Please contact administrator.''
   \<and> fst (login demo_bcrypt \<lparr>username = ''bob'', password = ''wrong''\<rparr> demo_world)
       \<noteq> failure ''Invalid username or password''"
  by (simp add: demo_defs recorded_attempts_def store_up_def)

section \<open>Login: a correct password resets the lockout state\<close>

text \<open>
  C2. The lookup answers with an active account \<open>usr\<close>, the lock test says not locked and
  leaves the world \<open>w2\<close>, the password verifies against the stored hash, the store takes the
  write and \<open>user_id\<close> is a key of the table. Then the stored row of \<open>usr\<close> gets
  \<open>failed_login_attempts = 0\<close>, \<open>locked_until = null\<close> and \<open>last_login\<close> the reading of
  the clock at that moment; every other row is untouched; and the attempt returns
  \<open>success = true\<close> with the profile of the account and a session token for it.
\<close>

theorem correct_password_resets_and_succeeds:
  assumes lookup: "getUserByUsername (username creds) w = (Inr (Some usr), w1)"
    and key: "key_unique w"
    and active: "is_active usr"
    and unlocked: "is_locked usr w1 = (False, w2)"
    and right: "verifyPassword bc (password creds) (password_hash usr)"
    and wr: "store_answers w1"
  shows "users (snd (login bc creds w)) =
           map (\<lambda>r. if r = usr
                    then usr\<lparr>failed_login_attempts := Some 0, locked_until := None,
                             last_login := Some (clock w2)\<rparr>
                    else r) (users w)
       \<and> success (fst (login bc creds w))
       \<and> error (fst (login bc creds w)) = None
       \<and> user (fst (login bc creds w)) =
           Some \<lparr>user_id = user_id usr, name = name usr, email = email usr,
                 role = role usr, whatsapp_number = whatsapp_number usr,
                 academic_year = academic_year usr, current_semester = current_semester usr,
                 is_active = is_active usr, force_password_change = force_password_change usr,
                 last_login = last_login usr, created_at = created_at usr\<rparr>
       \<and> (\<exists>tok. token (fst (login bc creds w)) = Some tok
                \<and> token_user_id tok = user_id usr \<and> token_role tok = role usr)"
proof -
  from login_right_password [OF lookup key active unlocked right wr]
  obtain w4 tok where l: "login bc creds w =
         (\<lparr>success = True,
           user = Some \<lparr>user_id = user_id usr, name = name usr, email = email usr,
                        role = role usr, whatsapp_number = whatsapp_number usr,
                        academic_year = academic_year usr,
                        current_semester = current_semester usr,
                        is_active = is_active usr,
                        force_password_change = force_password_change usr,
                        last_login = last_login usr, created_at = created_at usr\<rparr>,
           token = Some tok, tempPassword = None, error = None\<rparr>,
          logAuditEvent (Some (user_id usr)) ''LOGIN_SUCCESS''
            ''User logged in successfully'' w4)"
    and tok: "token_user_id tok = user_id usr" "token_role tok = role usr"
    and u: "users w4 =
           map (\<lambda>r. if r = usr
                    then usr\<lparr>failed_login_attempts := Some 0, locked_until := None,
                             last_login := Some (clock w2)\<rparr>
                    else r) (users w)"
    by blast
  show ?thesis unfolding l using tok u by simp
qed

text \<open>
  On the sample world: alice logs in with the right password at clock 5000; the counter goes from
  4 to 0 and \<open>last_login\<close> becomes 5000.
\<close>

theorem correct_password_resets_and_succeeds_witness:
  "getUserByUsername ''alice'' demo_world =
     (Inr (Some (demo_row ''STD-1'' ''alice'' True (Some 4) None)), demo_world)
   \<and> key_unique demo_world
   \<and> is_active (demo_row ''STD-1'' ''alice'' True (Some 4) None)
   \<and> is_locked (demo_row ''STD-1'' ''alice'' True (Some 4) None) demo_world = (False, demo_world)
   \<and> verifyPassword demo_bcrypt ''secret''
         (password_hash (demo_row ''STD-1'' ''alice'' True (Some 4) None))
   \<and> store_answers demo_world
   \<and> map (\<lambda>r. (failed_login_attempts r, locked_until r, last_login r))
         (users (snd (login demo_bcrypt \<lparr>username = ''alice'', password = ''secret''\<rparr> demo_world)))
       = [(Some 0, None, Some 5000), (Some 0, None, None), (Some 7, Some 4000, None),
          (Some 5, Some 900000, None), (Some 7, Some 4000, None)]
   \<and> success (fst (login demo_bcrypt \<lparr>username = ''alice'', password = ''secret''\<rparr> demo_world))
   \<and> map_option name
         (user (fst (login demo_bcrypt \<lparr>username = ''alice'', password = ''secret''\<rparr> demo_world)))
       = Some ''alice''
   \<and> map_option token_user_id
         (token (fst (login demo_bcrypt \<lparr>username = ''alice'', password = ''secret''\<rparr> demo_world)))
       = Some ''STD-1''"
proof -
  let ?alice = "demo_row ''STD-1'' ''alice'' True (Some 4) None"
  let ?c = "\<lparr>username = ''alice'', password = ''secret''\<rparr>"
  have h: "is_active ?alice" "is_locked ?alice demo_world = (False, demo_world)"
    "verifyPassword demo_bcrypt ''secret'' (password_hash ?alice)"
    by (simp_all add: demo_row_def is_locked_def verifyPassword_def demo_bcrypt_def)
  have l: "getUserByUsername (username ?c) demo_world = (Inr (Some ?alice), demo_world)"
    using demo_lookup(1) by simp
  note t = correct_password_resets_and_succeeds
             [OF l demo_key_unique h(1) h(2) _ demo_store(1), of demo_bcrypt]
  have t': "users (snd (login demo_bcrypt ?c demo_world)) =
           map (\<lambda>r. if r = ?alice
                    then ?alice\<lparr>failed_login_attempts := Some 0, locked_until := None,
                             last_login := Some (clock demo_world)\<rparr>
                    else r) (users demo_world)"
    "success (fst (login demo_bcrypt ?c demo_world))"
    "map_option name (user (fst (login demo_bcrypt ?c demo_world))) = Some ''alice''"
    "map_option token_user_id (token (fst (login demo_bcrypt ?c demo_world))) = Some ''STD-1''"
    using t h(3) by (auto simp: demo_row_def)
  have "map (\<lambda>r. (failed_login_attempts r, locked_until r, last_login r))
         (users (snd (login demo_bcrypt ?c demo_world)))
       = [(Some 0, None, Some 5000), (Some 0, None, None), (Some 7, Some 4000, None),
          (Some 5, Some 900000, None), (Some 7, Some 4000, None)]"
    unfolding t'(1) by (simp add: demo_world_def demo_row_def)
  then show ?thesis
    using t'(2-4) demo_lookup(1) demo_key_unique h demo_store(1) by simp
qed

section \<open>Login: an unknown handle and a wrong password look the same\<close>

text \<open>
  C5. One attempt uses a handle for which the lookup answers with no account; another uses
  the handle of an active account that is not locked, with a wrong password (the store
  taking the write, \<open>user_id\<close> being a key). Both return the same outcome: \<open>success = false\<close>
  with the error text \<open>Invalid username or password\<close> and nothing else.
\<close>

theorem unknown_handle_and_wrong_password_same_outcome:
  assumes absent: "getUserByUsername (username ca) wa = (Inr None, wa1)"
    and lookup: "getUserByUsername (username cb) wb = (Inr (Some usr), wb1)"
    and key: "key_unique wb"
    and active: "is_active usr"
    and unlocked: "is_locked usr wb1 = (False, wb2)"
    and wrong: "\<not> verifyPassword bc (password cb) (password_hash usr)"
    and wr: "store_answers wb1"
  shows "fst (login bc ca wa) = fst (login bc cb wb)
       \<and> fst (login bc ca wa) = failure ''Invalid username or password''"
proof -
  have a: "fst (login bc ca wa) = failure ''Invalid username or password''"
    using login_try_absent [OF absent] by (simp add: login_def)
  from login_wrong_password [OF lookup key active unlocked wrong wr]
  have b: "fst (login bc cb wb) = failure ''Invalid username or password''"
    by auto
  from a b show ?thesis by simp
qed

theorem unknown_handle_and_wrong_password_same_outcome_witness:
  "getUserByUsername ''mallory'' demo_world = (Inr None, demo_world)
   \<and> getUserByUsername ''carol'' demo_world =
       (Inr (Some (demo_row ''STD-3'' ''carol'' True (Some 7) (Some 4000))), demo_world)
   \<and> key_unique demo_world
   \<and> is_active (demo_row ''STD-3'' ''carol'' True (Some 7) (Some 4000))
   \<and> is_locked (demo_row ''STD-3'' ''carol'' True (Some 7) (Some 4000)) demo_world
       = (False, snd (read_clock demo_world))
   \<and> \<not> verifyPassword demo_bcrypt ''guess''
         (password_hash (demo_row ''STD-3'' ''carol'' True (Some 7) (Some 4000)))
   \<and> store_answers demo_world
   \<and> fst (login demo_bcrypt \<lparr>username = ''mallory'', password = ''guess''\<rparr> demo_world)
       = fst (login demo_bcrypt \<lparr>username = ''carol'', password = ''guess''\<rparr> demo_world)
   \<and> fst (login demo_bcrypt \<lparr>username = ''mallory'', password = ''guess''\<rparr> demo_world)
       = failure ''Invalid username or password''"
proof -
  let ?carol = "demo_row ''STD-3'' ''carol'' True (Some 7) (Some 4000)"
  have h: "is_active ?carol" "is_locked ?carol demo_world = (False, snd (read_clock demo_world))"
    "\<not> verifyPassword demo_bcrypt ''guess'' (password_hash ?carol)"
    by (simp_all add: demo_row_def is_locked_def verifyPassword_def demo_bcrypt_def
                      read_clock_def demo_world_def)
  show ?thesis
    using unknown_handle_and_wrong_password_same_outcome
            [of "\<lparr>username = ''mallory'', password = ''guess''\<rparr>" demo_world demo_world
                "\<lparr>username = ''carol'', password = ''guess''\<rparr>" demo_world ?carol demo_world
                "snd (read_clock demo_world)" demo_bcrypt]
          demo_lookup(3) demo_lookup(6) demo_key_unique h demo_store(1)
    by auto
qed

section \<open>Login: a lock that has run out does not reset the counter\<close>

text \<open>
  C9, amended. As written the claim covers inactive accounts, for which nothing is written
  (see the counterexample below). For an \<^emph>\<open>active\<close> account it holds, when the store takes
  the write and \<open>user_id\<close> is a key of the table:

  the lookup answers with the active account \<open>usr\<close> whose \<open>locked_until\<close> is \<open>t\<close>, the lock
  test says not locked (so \<open>t\<close> is not later than the clock) and leaves the world \<open>w2\<close>, at
  least 5 failures are recorded and the password is wrong. Then the stored row of \<open>usr\<close> gets
  the counter raised by one and \<open>locked_until\<close> set to the reading of the clock at that
  moment (\<open>clock w2\<close>) plus 15 minutes, which is later than \<open>t\<close>.
\<close>

theorem expired_lock_relocks_on_next_failure:
  assumes lookup: "getUserByUsername (username creds) w = (Inr (Some usr), w1)"
    and key: "key_unique w"
    and active: "is_active usr"
    and expired: "locked_until usr = Some t"
    and unlocked: "is_locked usr w1 = (False, w2)"
    and many: "recorded_attempts usr \<ge> 5"
    and wrong: "\<not> verifyPassword bc (password creds) (password_hash usr)"
    and wr: "store_answers w1"
  shows "t \<le> clock w
       \<and> t < clock w2 + 15 * 60 * 1000
       \<and> fst (login bc creds w) = failure ''Invalid username or password''
       \<and> users (snd (login bc creds w)) =
           map (\<lambda>r. if r = usr
                    then usr\<lparr>failed_login_attempts := Some (recorded_attempts usr + 1),
                             locked_until := Some (clock w2 + 15 * 60 * 1000)\<rparr>
                    else r) (users w)"
proof -
  have w2: "w2 = snd (read_clock w1)" and t: "t \<le> clock w1"
    using expired unlocked by (auto simp: is_locked_def read_clock_def)
  have c: "clock w1 = clock w" by (rule found_clock [OF lookup])
  have later: "clock w1 \<le> clock w2" unfolding w2 by (simp add: read_clock_def)
  from login_wrong_password [OF lookup key active unlocked wrong wr] many
  have "fst (login bc creds w) = failure ''Invalid username or password''"
    and "users (snd (login bc creds w)) =
           map (\<lambda>r. if r = usr
                    then usr\<lparr>failed_login_attempts := Some (recorded_attempts usr + 1),
                             locked_until := Some (clock w2 + 15 * 60 * 1000)\<rparr>
                    else r) (users w)"
    by auto
  then show ?thesis using t c later by simp
qed

text \<open>
  On the sample world: carol has 7 recorded failures and a lock that ran out at 4000; the
  clock reads 5000 at the lock test and 5001 at the write.
\<close>

theorem expired_lock_relocks_on_next_failure_witness:
  "getUserByUsername ''carol'' demo_world =
     (Inr (Some (demo_row ''STD-3'' ''carol'' True (Some 7) (Some 4000))), demo_world)
   \<and> key_unique demo_world
   \<and> is_active (demo_row ''STD-3'' ''carol'' True (Some 7) (Some 4000))
   \<and> locked_until (demo_row ''STD-3'' ''carol'' True (Some 7) (Some 4000)) = Some 4000
   \<and> is_locked (demo_row ''STD-3'' ''carol'' True (Some 7) (Some 4000)) demo_world
       = (False, snd (read_clock demo_world))
   \<and> recorded_attempts (demo_row ''STD-3'' ''carol'' True (Some 7) (Some 4000)) \<ge> 5
   \<and> \<not> verifyPassword demo_bcrypt ''guess''
         (password_hash (demo_row ''STD-3'' ''carol'' True (Some 7) (Some 4000)))
   \<and> store_answers demo_world
   \<and> 4000 \<le> clock demo_world
   \<and> fst (login demo_bcrypt \<lparr>username = ''carol'', password = ''guess''\<rparr> demo_world)
       = failure ''Invalid username or password''
   \<and> map (\<lambda>r. (failed_login_attempts r, locked_until r))
         (users (snd (login demo_bcrypt \<lparr>username = ''carol'', password = ''guess''\<rparr> demo_world)))
       = [(Some 4, None), (Some 0, None), (Some 8, Some 905001), (Some 5, Some 900000),
          (Some 7, Some 4000)]"
proof -
  let ?carol = "demo_row ''STD-3'' ''carol'' True (Some 7) (Some 4000)"
  let ?c = "\<lparr>username = ''carol'', password = ''guess''\<rparr>"
  have h: "is_active ?carol" "locked_until ?carol = Some 4000"
    "is_locked ?carol demo_world = (False, snd (read_clock demo_world))"
    "recorded_attempts ?carol \<ge> 5"
    "\<not> verifyPassword demo_bcrypt ''guess'' (password_hash ?carol)"
    by (simp_all add: demo_row_def is_locked_def verifyPassword_def demo_bcrypt_def
                      read_clock_def demo_world_def recorded_attempts_def)
  have l: "getUserByUsername (username ?c) demo_world = (Inr (Some ?carol), demo_world)"
    using demo_lookup(3) by simp
  have p: "\<not> verifyPassword demo_bcrypt (password ?c) (password_hash ?carol)"
    using h(5) by simp
  note t = expired_lock_relocks_on_next_failure
             [OF l demo_key_unique h(1) h(2) h(3) h(4) p demo_store(1)]
  from t have "4000 \<le> clock demo_world"
    and "fst (login demo_bcrypt ?c demo_world) = failure ''Invalid username or password''"
    and u: "users (snd (login demo_bcrypt ?c demo_world)) =
           map (\<lambda>r. if r = ?carol
                    then ?carol\<lparr>failed_login_attempts := Some (recorded_attempts ?carol + 1),
                                locked_until := Some (clock (snd (read_clock demo_world)) + 15 * 60 * 1000)\<rparr>
                    else r) (users demo_world)"
    by simp_all
  moreover have "map (\<lambda>r. (failed_login_attempts r, locked_until r))
         (users (snd (login demo_bcrypt ?c demo_world)))
       = [(Some 4, None), (Some 0, None), (Some 8, Some 905001), (Some 5, Some 900000),
          (Some 7, Some 4000)]"
    unfolding u by (simp add: demo_world_def demo_row_def recorded_attempts_def read_clock_def)
  ultimately show ?thesis
    using demo_lookup(3) demo_key_unique h demo_store(1) by simp
qed

text \<open>
  erin is inactive, has 7 recorded failures and a lock that ran out at 4000: a wrong password
  at clock 5000 sets no new lock.
\<close>

theorem expired_lock_on_inactive_account_counterexample:
  "getUserByUsername ''erin'' demo_world =
     (Inr (Some (demo_row ''STD-5'' ''erin'' False (Some 7) (Some 4000))), demo_world)
   \<and> locked_until (demo_row ''STD-5'' ''erin'' False (Some 7) (Some 4000)) = Some 4000
   \<and> 4000 \<le> clock demo_world
   \<and> recorded_attempts (demo_row ''STD-5'' ''erin'' False (Some 7) (Some 4000)) \<ge> 5
   \<and> \<not> verifyPassword demo_bcrypt ''guess''
         (password_hash (demo_row ''STD-5'' ''erin'' False (Some 7) (Some 4000)))
   \<and> store_up demo_world
   \<and> map locked_until
         (users (snd (login demo_bcrypt \<lparr>username = ''erin'', password = ''guess''\<rparr> demo_world)))
       = [None, None, Some 4000, Some 900000, Some 4000]
   \<and> users (snd (login demo_bcrypt \<lparr>username = ''erin'', password = ''guess''\<rparr> demo_world))
       = users demo_world"
  by (simp add: demo_defs recorded_attempts_def store_up_def)

section \<open>Login: the returned profile carries the previous \<open>last_login\<close>\<close>

lemma apply_update_user_id [simp]: "user_id (apply_update x r) = user_id r"
  by (cases x) simp_all

lemma apply_updates_user_id [simp]: "user_id (apply_updates ups r) = user_id r"
  by (induction ups arbitrary: r) simp_all

lemma updated_row:
  assumes "filter (\<lambda>u. user_id u = uid) xs = [u]"
  shows "filter (\<lambda>r. user_id r = uid)
           (map (\<lambda>r. if user_id r = uid then apply_updates ups r else r) xs)
         = [apply_updates ups u]"
proof -
  have "(\<lambda>r. user_id r = uid) \<circ> (\<lambda>r. if user_id r = uid then apply_updates ups r else r)
        = (\<lambda>r. user_id r = uid)"
    by (rule ext) simp
  then have "filter (\<lambda>r. user_id r = uid)
               (map (\<lambda>r. if user_id r = uid then apply_updates ups r else r) xs)
             = map (\<lambda>r. if user_id r = uid then apply_updates ups r else r)
                 (filter (\<lambda>u. user_id u = uid) xs)"
    by (simp add: filter_map)
  moreover have "user_id u = uid"
  proof -
    have "u \<in> set (filter (\<lambda>u. user_id u = uid) xs)" using assms by simp
    then show ?thesis by simp
  qed
  ultimately show ?thesis using assms by simp
qed

text \<open>
  C10. Whenever \<open>login\<close> returns \<open>success = true\<close>, the lookup had answered with an account
  \<open>usr\<close>; the profile in the outcome carries \<open>last_login usr\<close>, the value read from the store
  before the attempt, while the row stored for \<open>usr\<close> afterwards carries the reading of the
  clock at the write.
\<close>

theorem successful_login_reports_previous_last_login:
  assumes "login bc creds w = (r, w')" and "success r"
  shows "\<exists>usr w1 w2.
           getUserByUsername (username creds) w = (Inr (Some usr), w1)
         \<and> is_locked usr w1 = (False, w2)
         \<and> usr \<in> set (users w)
         \<and> map_option last_login (user r) = Some (last_login usr)
         \<and> filter (\<lambda>u. user_id u = user_id usr) (users w') =
             [usr\<lparr>failed_login_attempts := Some 0, locked_until := None,
                  last_login := Some (clock w2)\<rparr>]"
proof -
  from login_success_inv [OF assms]
  obtain usr w1 w2 row w4 where
    lookup: "getUserByUsername (username creds) w = (Inr (Some usr), w1)"
    and active: "is_active usr" and unlocked: "is_locked usr w1 = (False, w2)"
    and right: "verifyPassword bc (password creds) (password_hash usr)"
    and upd: "updateUser (user_id usr)
               [Set_failed_login_attempts 0, Set_locked_until None, Set_last_login (Some (clock w2))]
               (snd (read_clock w2)) = (Inr row, w4)"
    by blast
  let ?ups = "[Set_failed_login_attempts 0, Set_locked_until None, Set_last_login (Some (clock w2))]"
  have w2: "w2 = snd (is_locked usr w1)" using unlocked by simp
  have tbl: "usr \<in> set (users w)" "users w1 = users w"
    using found_in_table [OF lookup] by simp_all
  have w3: "users (snd (read_clock w2)) = users w" using tbl w2 by simp
  from updateUser_inv(2) [OF upd] w3
  obtain u where one: "filter (\<lambda>u. user_id u = user_id usr) (users w) = [u]" by auto
  have "usr \<in> set (filter (\<lambda>u. user_id u = user_id usr) (users w))" using tbl(1) by simp
  with one have one': "filter (\<lambda>u. user_id u = user_id usr) (users w) = [usr]" by simp
  have u4: "users w4 = map (\<lambda>r. if user_id r = user_id usr then apply_updates ?ups r else r) (users w)"
    using updateUser_inv(3) [OF upd] w3 by simp
  have body: "login bc creds w =
      (\<lparr>success = True,
        user = Some \<lparr>user_id = user_id usr, name = name usr, email = email usr,
                     role = role usr, whatsapp_number = whatsapp_number usr,
                     academic_year = academic_year usr, current_semester = current_semester usr,
                     is_active = is_active usr, force_password_change = force_password_change usr,
                     last_login = last_login usr, created_at = created_at usr\<rparr>,
        token = Some (fst (generateToken
                     \<lparr>user_id = user_id usr, name = name usr, email = email usr,
                     role = role usr, whatsapp_number = whatsapp_number usr,
                     academic_year = academic_year usr, current_semester = current_semester usr,
                     is_active = is_active usr, force_password_change = force_password_change usr,
                     last_login = last_login usr, created_at = created_at usr\<rparr> w4)),
        tempPassword = None, error = None\<rparr>,
       logAuditEvent (Some (user_id usr)) ''LOGIN_SUCCESS'' ''User logged in successfully''
         (storeAuth \<lparr>user_id = user_id usr, name = name usr, email = email usr,
                     role = role usr, whatsapp_number = whatsapp_number usr,
                     academic_year = academic_year usr, current_semester = current_semester usr,
                     is_active = is_active usr, force_password_change = force_password_change usr,
                     last_login = last_login usr, created_at = created_at usr\<rparr>
            (fst (generateToken \<lparr>user_id = user_id usr, name = name usr, email = email usr,
                     role = role usr, whatsapp_number = whatsapp_number usr,
                     academic_year = academic_year usr, current_semester = current_semester usr,
                     is_active = is_active usr, force_password_change = force_password_change usr,
                     last_login = last_login usr, created_at = created_at usr\<rparr> w4))
            (snd (generateToken \<lparr>user_id = user_id usr, name = name usr, email = email usr,
                     role = role usr, whatsapp_number = whatsapp_number usr,
                     academic_year = academic_year usr, current_semester = current_semester usr,
                     is_active = is_active usr, force_password_change = force_password_change usr,
                     last_login = last_login usr, created_at = created_at usr\<rparr> w4))))"
    using login_try_right_password [OF lookup active unlocked right upd refl]
    by (simp add: login_def)
  from body assms(1) have r: "map_option last_login (user r) = Some (last_login usr)"
    and w': "users w' = users w4"
    by auto
  have "filter (\<lambda>u. user_id u = user_id usr) (users w') = [apply_updates ?ups usr]"
    unfolding w' u4 by (rule updated_row [OF one'])
  then have "filter (\<lambda>u. user_id u = user_id usr) (users w') =
             [usr\<lparr>failed_login_attempts := Some 0, locked_until := None,
                  last_login := Some (clock w2)\<rparr>]"
    by simp
  with lookup unlocked tbl(1) r show ?thesis by blast
qed


text \<open>
  On the sample world: alice never logged in before; the login at clock 5000 returns an outcome
  that carries no \<open>last_login\<close>, and the stored row carries 5000.
\<close>

theorem successful_login_reports_previous_last_login_witness:
  "success (fst (login demo_bcrypt \<lparr>username = ''alice'', password = ''secret''\<rparr> demo_world))
   \<and> last_login (demo_row ''STD-1'' ''alice'' True (Some 4) None) = None
   \<and> map_option last_login
         (user (fst (login demo_bcrypt \<lparr>username = ''alice'', password = ''secret''\<rparr> demo_world)))
       = Some None
   \<and> map last_login
         (filter (\<lambda>u. user_id u = ''STD-1'')
            (users (snd (login demo_bcrypt \<lparr>username = ''alice'', password = ''secret''\<rparr> demo_world))))
       = [Some 5000]"
proof -
  let ?alice = "demo_row ''STD-1'' ''alice'' True (Some 4) None"
  let ?c = "\<lparr>username = ''alice'', password = ''secret''\<rparr>"
  have s: "success (fst (login demo_bcrypt ?c demo_world))"
    by (simp add: demo_defs Let_def)
  have p: "login demo_bcrypt ?c demo_world =
             (fst (login demo_bcrypt ?c demo_world), snd (login demo_bcrypt ?c demo_world))"
    by simp
  from successful_login_reports_previous_last_login [OF p s]
  obtain usr w1 w2 where
    l: "getUserByUsername (username ?c) demo_world = (Inr (Some usr), w1)"
    and k: "is_locked usr w1 = (False, w2)"
    and r: "map_option last_login (user (fst (login demo_bcrypt ?c demo_world)))
              = Some (last_login usr)"
    and f: "filter (\<lambda>u. user_id u = user_id usr) (users (snd (login demo_bcrypt ?c demo_world))) =
             [usr\<lparr>failed_login_attempts := Some 0, locked_until := None,
                  last_login := Some (clock w2)\<rparr>]"
    by blast
  from l demo_lookup(1) have usr: "usr = ?alice" and w1: "w1 = demo_world" by simp_all
  from k have w2: "w2 = demo_world" unfolding usr w1 by (simp add: is_locked_def demo_row_def)
  have id: "user_id ?alice = ''STD-1''" "last_login ?alice = None" by (simp_all add: demo_row_def)
  have c: "clock demo_world = 5000" by (simp add: demo_world_def)
  from f have "map last_login (filter (\<lambda>u. user_id u = ''STD-1'')
                 (users (snd (login demo_bcrypt ?c demo_world)))) = [Some 5000]"
    unfolding usr w2 id c by simp
  with s r id show ?thesis unfolding usr by simp
qed

section \<open>Login: which attempts reach the audit trail\<close>

lemma getUserByUsername_world:
  "snd (getUserByUsername uname w) = snd (next_fault w)"
  by (auto simp: getUserByUsername_def single_def split: prod.splits option.splits list.splits)

lemma getUserByUsername_answers:
  assumes "store_answers w"
  shows "fst (getUserByUsername uname w) \<noteq> Inl e"
  using assms
  by (auto simp: getUserByUsername_def single_def store_answers_def PGRST116_def
           split: prod.splits option.splits list.splits)

text \<open>
  C3, amended. The claim as written fails: the inactive and the locked paths return before
  anything is written, the audit trail included (see the counterexample below). What the
  code does, when the store lets every call through and \<open>user_id\<close> is a key of the table:
  an attempt appends exactly one row to the audit trail when it ends with the
  invalid-credentials outcome (unknown handle or wrong password) or with success, and
  appends nothing when it ends with the account-inactive or the account-locked outcome.
\<close>

theorem login_audit_events:
  assumes up: "store_up w" and key: "key_unique w"
  shows "\<exists>new. audit_trail (snd (login bc creds w)) = audit_trail w @ new
             \<and> length new =
                 (if error (fst (login bc creds w))
                       = Some ''Account is inactive. Please contact administrator.''
                   \<or> error (fst (login bc creds w))
                       = Some ''Account is temporarily locked due to too many failed attempts''
                  then 0 else 1)"
proof -
  obtain res w1 where lookup: "getUserByUsername (username creds) w = (res, w1)"
    by (cases "getUserByUsername (username creds) w")
  have w1: "w1 = snd (next_fault w)"
    using getUserByUsername_world [of "username creds" w] lookup by simp
  have up1: "store_up w1" and a1: "audit_trail w1 = audit_trail w"
    using store_up_next [OF up] w1 by simp_all
  have ans1: "store_answers w1" by (rule store_up_answers [OF up1])
  have "res \<noteq> Inl e" for e
    using getUserByUsername_answers [OF store_up_answers [OF up], of "username creds" e] lookup
    by simp
  then obtain found where res: "res = Inr found" by (cases res) auto
  show ?thesis
  proof (cases found)
    case None
    have "login bc creds w =
            (failure ''Invalid username or password'',
             logAuditEvent None ''LOGIN_FAILED''
               (''Failed login attempt for username: '' @ username creds) w1)"
      using login_try_absent [of creds w w1 bc] lookup res None by (simp add: login_def)
    then show ?thesis
      using ans1 a1 by (simp add: logAuditEvent_trail failure_def)
  next
    case (Some usr)
    have l: "getUserByUsername (username creds) w = (Inr (Some usr), w1)"
      using lookup res Some by simp
    show ?thesis
    proof (cases "is_active usr")
      case False
      have "login bc creds w =
              (failure ''Account is inactive. Please contact administrator.'', w1)"
        using login_try_inactive [OF l False] by (simp add: login_def)
      then show ?thesis using a1 by (simp add: failure_def)
    next
      case True
      obtain lk w2 where k: "is_locked usr w1 = (lk, w2)" by (cases "is_locked usr w1")
      have w2: "w2 = snd (is_locked usr w1)" using k by simp
      show ?thesis
      proof (cases lk)
        case True
        have "login bc creds w =
                (failure ''Account is temporarily locked due to too many failed attempts'', w2)"
          using login_try_locked [OF l \<open>is_active usr\<close>] k True by (simp add: login_def)
        then show ?thesis using a1 w2 by (simp add: failure_def)
      next
        case False
        with k have unlocked: "is_locked usr w1 = (False, w2)" by simp
        show ?thesis
        proof (cases "verifyPassword bc (password creds) (password_hash usr)")
          case False
          from login_wrong_password [OF l key True unlocked False ans1]
          obtain w4 where r: "login bc creds w =
                 (failure ''Invalid username or password'',
                  logAuditEvent (Some (user_id usr)) ''LOGIN_FAILED''
                    (''Failed login attempt for user: '' @ name usr) w4)"
            and a4: "audit_trail w4 = audit_trail w" and f4: "faults w4 = tl (faults w1)"
            by blast
          have "store_answers w4" using store_up_answers [OF store_up_tl [OF up1 f4]] .
          then show ?thesis
            unfolding r using a4 by (simp add: logAuditEvent_trail failure_def)
        next
          case right: True
          from login_right_password [OF l key True unlocked right ans1]
          obtain w4 r where r: "login bc creds w =
                 (r, logAuditEvent (Some (user_id usr)) ''LOGIN_SUCCESS''
                       ''User logged in successfully'' w4)"
            and e: "error r = None"
            and a4: "audit_trail w4 = audit_trail w" and f4: "faults w4 = tl (faults w1)"
            by force
          have "store_answers w4" using store_up_answers [OF store_up_tl [OF up1 f4]] .
          then show ?thesis
            unfolding r using a4 e by (simp add: logAuditEvent_trail)
        qed
      qed
    qed
  qed
qed

text \<open>
  On the sample world, whose store lets every call through: mallory is unknown, carol gives a
  wrong password, alice logs in (one row each); bob is inactive and dave is locked (no row).
\<close>

theorem login_audit_events_witness:
  "store_up demo_world \<and> key_unique demo_world
   \<and> audit_trail demo_world = []
   \<and> map (\<lambda>c. map action (audit_trail (snd (login demo_bcrypt c demo_world))))
       [\<lparr>username = ''mallory'', password = ''guess''\<rparr>,
        \<lparr>username = ''carol'', password = ''guess''\<rparr>,
        \<lparr>username = ''alice'', password = ''secret''\<rparr>,
        \<lparr>username = ''bob'', password = ''secret''\<rparr>,
        \<lparr>username = ''dave'', password = ''secret''\<rparr>]
     = [[''LOGIN_FAILED''], [''LOGIN_FAILED''], [''LOGIN_SUCCESS''], [], []]
   \<and> (\<exists>new. audit_trail (snd (login demo_bcrypt \<lparr>username = ''alice'', password = ''secret''\<rparr>
                                  demo_world)) = audit_trail demo_world @ new
            \<and> length new = 1)"
proof -
  have e: "error (fst (login demo_bcrypt \<lparr>username = ''alice'', password = ''secret''\<rparr> demo_world))
             = None"
    by (simp add: demo_defs Let_def)
  have "\<exists>new. audit_trail (snd (login demo_bcrypt \<lparr>username = ''alice'', password = ''secret''\<rparr>
                                  demo_world)) = audit_trail demo_world @ new
            \<and> length new = 1"
    using login_audit_events [OF demo_store(2) demo_key_unique,
            of demo_bcrypt "\<lparr>username = ''alice'', password = ''secret''\<rparr>"] e
    by simp
  moreover have "map (\<lambda>c. map action (audit_trail (snd (login demo_bcrypt c demo_world))))
       [\<lparr>username = ''mallory'', password = ''guess''\<rparr>,
        \<lparr>username = ''carol'', password = ''guess''\<rparr>,
        \<lparr>username = ''alice'', password = ''secret''\<rparr>,
        \<lparr>username = ''bob'', password = ''secret''\<rparr>,
        \<lparr>username = ''dave'', password = ''secret''\<rparr>]
     = [[''LOGIN_FAILED''], [''LOGIN_FAILED''], [''LOGIN_SUCCESS''], [], []]"
    by (simp add: demo_defs Let_def)
  moreover have "audit_trail demo_world = []" by (simp add: demo_world_def)
  ultimately show ?thesis using demo_store(2) demo_key_unique by blast
qed

text \<open>
  bob is inactive, dave is locked: with a store that lets every call through, neither attempt
  leaves a row in the audit trail.
\<close>

theorem login_without_audit_event_counterexample:
  "store_up demo_world
   \<and> audit_trail demo_world = []
   \<and> fst (login demo_bcrypt \<lparr>username = ''bob'', password = ''secret''\<rparr> demo_world)
       = failure ''Account is inactive. Please contact administrator.''
   \<and> audit_trail (snd (login demo_bcrypt \<lparr>username = ''bob'', password = ''secret''\<rparr> demo_world))
       = []
   \<and> fst (login demo_bcrypt \<lparr>username = ''dave'', password = ''secret''\<rparr> demo_world)
       = failure ''Account is temporarily locked due to too many failed attempts''
   \<and> audit_trail (snd (login demo_bcrypt \<lparr>username = ''dave'', password = ''secret''\<rparr> demo_world))
       = []"
  by (simp add: demo_defs store_up_def)

section \<open>Temporary passwords\<close>

subsection \<open>The rounded product stays inside the alphabet\<close>

lemma ulp_exponent_bound: "p < 2 ^ (53 + n) \<Longrightarrow> ulp_exponent p \<le> n"
proof (induction n arbitrary: p)
  case 0
  then show ?case by (subst ulp_exponent.simps) simp
next
  case (Suc n)
  show ?case
  proof (cases "p < 2 ^ 53")
    case True
    then show ?thesis by (subst ulp_exponent.simps) simp
  next
    case False
    have "(2::nat) ^ (53 + Suc n) = 2 ^ (53 + n) * 2"
      by (simp only: add_Suc_right power_Suc mult.commute)
    with Suc.prems have "p < 2 ^ (53 + n) * 2" by simp
    then have "p div 2 < 2 ^ (53 + n)" by (rule less_mult_imp_div_less)
    from Suc.IH [OF this] False show ?thesis by (subst ulp_exponent.simps) simp
  qed
qed

text \<open>Rounding moves a numerator up by half a unit in the last place at most.\<close>

lemma round_nearest_even_upper:
  "2 * round_nearest_even p \<le> 2 * p + 2 ^ ulp_exponent p"
proof -
  define m :: nat where "m = 2 ^ ulp_exponent p"
  define q where "q = p div m"
  define r where "r = p mod m"
  have p: "q * m + r = p" by (simp add: q_def r_def)
  have res: "round_nearest_even p =
               (if 2 * r > m \<or> (2 * r = m \<and> odd q) then q + 1 else q) * m"
    by (simp add: round_nearest_even_def Let_def m_def q_def r_def)
  have "2 * round_nearest_even p \<le> 2 * (q * m + r) + m"
    unfolding res by (auto simp: algebra_simps)
  then have "2 * round_nearest_even p \<le> 2 * p + m" unfolding p .
  then show ?thesis unfolding m_def .
qed

lemma chars_length: "length chars = 62"
  by (simp add: chars_def)

lemma drawn_index:
  assumes "k < 2 ^ 53"
  shows "Math_floor (double_times k (length chars)) < length chars"
proof -
  have p: "k * 62 + 62 \<le> 62 * 2 ^ 53" using assms by simp
  then have "k * 62 < 2 ^ (53 + 6)" by simp
  then have "ulp_exponent (k * 62) \<le> 6" by (rule ulp_exponent_bound)
  then have "(2::nat) ^ ulp_exponent (k * 62) \<le> 2 ^ 6" by (rule power_increasing) simp
  with round_nearest_even_upper [of "k * 62"] p
  have "round_nearest_even (k * 62) < 62 * 2 ^ 53" by simp
  then show ?thesis
    by (simp add: Math_floor_def double_times_def chars_length less_mult_imp_div_less)
qed

text \<open>
  The rounding matters: for \<open>k = 4648877034705028\<close> the exact product is \<open>32 - 2^-50\<close>, which
  is no double; the nearest one is 32, so the source picks \<open>chars[32]\<close> where the exact
  quotient would be 31.
\<close>

lemma double_times_rounds:
  "Math_floor (double_times 4648877034705028 62) = 32"
  "4648877034705028 * 62 div 2 ^ 53 = (31::nat)"
  "Math_floor (double_times (2 ^ 53 - 1) 62) = 61"
  "Math_floor (double_times 0 62) = 0"
  by (simp_all add: Math_floor_def double_times_def round_nearest_even_def ulp_exponent.simps
                    Let_def)

lemma charAt_drawn:
  assumes "k < 2 ^ 53"
  shows "charAt chars (Math_floor (double_times k (length chars)))
           = [chars ! Math_floor (double_times k (length chars))]"
  using drawn_index [OF assms] by (simp add: charAt_def)

subsection \<open>What the loop returns\<close>

lemma take_draws_Suc:
  "take (Suc m) (map f rs @ replicate (Suc m) (0::nat)) =
     (case rs of [] \<Rightarrow> 0 | k # _ \<Rightarrow> f k) # take m (map f (tl rs) @ replicate m 0)"
proof (cases rs)
  case Nil
  then show ?thesis by simp
next
  case (Cons k ks)
  have "take (m - length ks) (replicate (Suc m) (0::nat)) = take (m - length ks) (replicate m 0)"
    unfolding take_replicate by (simp add: min_def)
  with Cons show ?thesis by simp
qed

lemma draws_in_range:
  assumes "k \<in> set (take n (map (\<lambda>k. k mod 2 ^ 53) rs @ replicate n (0::nat)))"
  shows "k < 2 ^ 53"
proof -
  from assms have "k \<in> set (map (\<lambda>k. k mod 2 ^ 53) rs @ replicate n (0::nat))"
    by (rule in_set_takeD)
  then show ?thesis by auto
qed

text \<open>
  From round \<open>i\<close> on, the loop appends one character for each of the next \<open>12 - i\<close> values of
  \<open>Math.random()\<close> and uses those values up; nothing else of the world changes.
\<close>


lemma generateTempPassword_loop_result:
  "i \<le> 12 \<Longrightarrow>
   generateTempPassword_loop i pw w =
     (pw @ map (\<lambda>k. chars ! Math_floor (double_times k (length chars)))
             (take (12 - i) (map (\<lambda>k. k mod 2 ^ 53) (randoms w) @ replicate (12 - i) 0)),
      w\<lparr>randoms := drop (12 - i) (randoms w)\<rparr>)"
proof (induction i pw w rule: generateTempPassword_loop.induct)
  case (1 i pw w)
  show ?case
  proof (cases "i < 12")
    case False
    with "1.prems" show ?thesis by (subst generateTempPassword_loop.simps) simp
  next
    case True
    let ?k = "case randoms w of [] \<Rightarrow> 0 | k # _ \<Rightarrow> k mod 2 ^ 53"
    let ?w1 = "w\<lparr>randoms := tl (randoms w)\<rparr>"
    have r: "Math_random w = (?k, ?w1)" by (simp add: Math_random_def)
    have k: "?k < 2 ^ 53" by (simp split: list.splits)
    obtain m where m: "12 - i = Suc m" "12 - (i + 1) = m"
      using True by (cases "12 - i") simp_all
    have step: "generateTempPassword_loop i pw w =
                generateTempPassword_loop (i + 1)
                  (pw @ [chars ! Math_floor (double_times ?k (length chars))]) ?w1"
      using True r charAt_drawn [OF k] by (subst generateTempPassword_loop.simps) simp
    have "i + 1 \<le> 12" using True by simp
    from "1.IH" [OF True r [symmetric] this]
    have ih: "generateTempPassword_loop (i + 1)
                (pw @ charAt chars (Math_floor (double_times ?k (length chars)))) ?w1 =
              ((pw @ charAt chars (Math_floor (double_times ?k (length chars))))
                 @ map (\<lambda>k. chars ! Math_floor (double_times k (length chars)))
                     (take m (map (\<lambda>k. k mod 2 ^ 53) (tl (randoms w)) @ replicate m 0)),
               w\<lparr>randoms := drop m (tl (randoms w))\<rparr>)"
      unfolding m by simp
    show ?thesis
      unfolding step m take_draws_Suc
      using ih charAt_drawn [OF k] by (simp add: drop_Suc)
  qed
qed


lemma generateTempPassword_result:
  "generateTempPassword w =
     (map (\<lambda>k. chars ! Math_floor (double_times k (length chars)))
        (take 12 (map (\<lambda>k. k mod 2 ^ 53) (randoms w) @ replicate 12 0)),
      w\<lparr>randoms := drop 12 (randoms w)\<rparr>)"
  using generateTempPassword_loop_result [of 0 "[]" w]
  by (simp add: generateTempPassword_def)

lemma drawn_password:
  assumes "pw = map (\<lambda>k. chars ! Math_floor (double_times k (length chars)))
                  (take 12 (map (\<lambda>k. k mod 2 ^ 53) rs @ replicate 12 0))"
  shows "length pw = 12" and "set pw \<subseteq> set chars"
proof -
  show "length pw = 12" unfolding assms by simp
  show "set pw \<subseteq> set chars"
  proof
    fix c assume "c \<in> set pw"
    then obtain k where k: "k \<in> set (take 12 (map (\<lambda>k. k mod 2 ^ 53) rs @ replicate 12 0))"
      and c: "c = chars ! Math_floor (double_times k (length chars))"
      unfolding assms by auto
    from drawn_index [OF draws_in_range [OF k]] show "c \<in> set chars"
      unfolding c by (rule nth_mem)
  qed
qed

lemma chars_printable:
  "list_all (\<lambda>c. 33 \<le> (of_char c :: nat) \<and> (of_char c :: nat) \<le> 126) chars"
  by (simp add: chars_def)

lemma chars_unambiguous: "set chars \<inter> set ''ILOlo01'' = {}"
  by (simp add: chars_def)

subsection \<open>What a reset leaves of the world\<close>

lemma hashPassword_result:
  "fst (hashPassword bc pw w) = bcrypt_hash bc pw 12 (case salts w of [] \<Rightarrow> [] | s # _ \<Rightarrow> s)"
  by (simp add: hashPassword_def)

lemma hashPassword_frame [simp]:
  "users (snd (hashPassword bc pw w)) = users w"
  "faults (snd (hashPassword bc pw w)) = faults w"
  "randoms (snd (hashPassword bc pw w)) = randoms w"
  by (simp_all add: hashPassword_def)

lemma next_fault_draws [simp]:
  "randoms (snd (next_fault w)) = randoms w"
  "salts (snd (next_fault w)) = salts w"
  by (simp_all add: next_fault_def split: list.splits)

lemma updateUser_draws [simp]:
  "randoms (snd (updateUser userId updates w)) = randoms w"
  by (simp add: updateUser_def case_prod_beta split: option.splits list.splits)

lemma logAuditEvent_draws [simp]:
  "randoms (logAuditEvent userId act det w) = randoms w"
  by (auto simp: logAuditEvent_def createAuditLog_def console_error_def next_fault_def read_clock_def
           split: prod.splits sum.splits option.splits list.splits)

lemma replace_single:
  assumes "filter (\<lambda>u. user_id u = uid) xs = [u]"
  shows "map (\<lambda>r. if user_id r = uid then f r else r) xs = map (\<lambda>r. if r = u then f u else r) xs"
proof (rule map_cong [OF refl])
  fix r assume r: "r \<in> set xs"
  have "user_id r = uid \<longleftrightarrow> r \<in> set (filter (\<lambda>u. user_id u = uid) xs)" using r by simp
  also have "\<dots> \<longleftrightarrow> r = u" unfolding assms by simp
  finally show "(if user_id r = uid then f r else r) = (if r = u then f u else r)" by auto
qed


section \<open>Resetting a password\<close>

text \<open>
  C7. Whenever \<open>resetUserPassword\<close> returns \<open>success = true\<close>: the table held exactly one
  row \<open>usr\<close> with that \<open>user_id\<close>, whatever its lockout state. The temporary password \<open>pw\<close> is
  made of the next 12 values of \<open>Math.random()\<close>, one character \<open>chars[floor(random * 62)]\<close>
  for each (the product rounded as a double), and those 12 values are used up, so the next
  password is drawn afresh. It has 12 characters, all from \<open>chars\<close>, which holds printable
  characters only and none of \<open>I L O l o 0 1\<close>. The outcome carries \<open>pw\<close> in plain text, and
  the stored row of \<open>usr\<close> has \<open>bcrypt.hash(pw, 12)\<close> as its hash,
  \<open>force_password_change = true\<close>, \<open>failed_login_attempts = 0\<close> and \<open>locked_until = null\<close>,
  every other row being untouched.
\<close>

theorem resetUserPassword_forces_change_and_unlocks:
  assumes "resetUserPassword bc userId w = (r, w')" and "success r"
  shows "\<exists>usr pw.
           filter (\<lambda>u. user_id u = userId) (users w) = [usr]
         \<and> pw = map (\<lambda>k. chars ! Math_floor (double_times k (length chars)))
                  (take 12 (map (\<lambda>k. k mod 2 ^ 53) (randoms w) @ replicate 12 0))
         \<and> randoms w' = drop 12 (randoms w)
         \<and> tempPassword r = Some pw
         \<and> length pw = 12
         \<and> set pw \<subseteq> set chars
         \<and> list_all (\<lambda>c. 33 \<le> (of_char c :: nat) \<and> (of_char c :: nat) \<le> 126) chars
         \<and> set chars \<inter> set ''ILOlo01'' = {}
         \<and> users w' =
             map (\<lambda>r. if r = usr
                      then usr\<lparr>password_hash :=
                                 bcrypt_hash bc pw 12 (case salts w of [] \<Rightarrow> [] | s # _ \<Rightarrow> s),
                               force_password_change := True,
                               failed_login_attempts := Some 0,
                               locked_until := None\<rparr>
                      else r) (users w)"
proof -
  define pw where "pw = map (\<lambda>k. chars ! Math_floor (double_times k (length chars)))
                          (take 12 (map (\<lambda>k. k mod 2 ^ 53) (randoms w) @ replicate 12 0))"
  let ?w1 = "w\<lparr>randoms := drop 12 (randoms w)\<rparr>"
  let ?h = "bcrypt_hash bc pw 12 (case salts w of [] \<Rightarrow> [] | s # _ \<Rightarrow> s)"
  let ?w2 = "snd (hashPassword bc pw ?w1)"
  let ?ups = "[Set_password_hash ?h, Set_force_password_change True,
               Set_failed_login_attempts 0, Set_locked_until None]"
  have gen: "generateTempPassword w = (pw, ?w1)"
    unfolding pw_def by (rule generateTempPassword_result)
  have h: "fst (hashPassword bc pw ?w1) = ?h" by (simp add: hashPassword_result)
  obtain res w3 where upd: "updateUser userId ?ups ?w2 = (res, w3)"
    by (cases "updateUser userId ?ups ?w2")
  have body: "resetUserPassword_try bc userId w =
          (case res of
             Inl e \<Rightarrow> (Inl e, w3)
           | Inr _ \<Rightarrow>
               (Inr \<lparr>success = True, user = None, token = None, tempPassword = Some pw,
                     error = None\<rparr>,
                logAuditEvent (currentUser_id w3) ''PASSWORD_RESET''
                  (''Reset password for user: '' @ userId) w3))"
    using upd h by (simp add: resetUserPassword_try_def gen case_prod_beta split: sum.splits)
  from assms body obtain row where res: "res = Inr row"
    by (cases res) (auto simp: resetUserPassword_def failure_def)
  from assms body res have r: "tempPassword r = Some pw"
    and w': "users w' = users w3" "randoms w' = randoms w3"
    by (auto simp: resetUserPassword_def)
  have u2: "users ?w2 = users w" "randoms ?w2 = drop 12 (randoms w)" by simp_all
  have "randoms w3 = randoms ?w2"
    using updateUser_draws [of userId ?ups ?w2] upd by simp
  then have draws: "randoms w' = drop 12 (randoms w)" using w'(2) u2(2) by simp
  from updateUser_inv(2) [OF upd [unfolded res]] u2(1)
  obtain usr where one: "filter (\<lambda>u. user_id u = userId) (users w) = [usr]" by auto
  have "users w3 = map (\<lambda>r. if user_id r = userId then apply_updates ?ups r else r) (users w)"
    using updateUser_inv(3) [OF upd [unfolded res]] u2(1) by simp
  also have "\<dots> = map (\<lambda>r. if r = usr then apply_updates ?ups usr else r) (users w)"
    by (rule replace_single [OF one])
  finally have "users w' =
             map (\<lambda>r. if r = usr
                      then usr\<lparr>password_hash := ?h, force_password_change := True,
                               failed_login_attempts := Some 0, locked_until := None\<rparr>
                      else r) (users w)"
    unfolding w'(1) by simp
  with one r draws drawn_password [OF pw_def] chars_printable chars_unambiguous pw_def
  show ?thesis by blast
qed



lemma draw_world_indices:
  "Math_floor (double_times 0 62) = 0"
  "Math_floor (double_times 4648877034705028 62) = 32"
  "Math_floor (double_times 9007199254740991 62) = 61"
  "Math_floor (double_times 4503599627370496 62) = 31"
  "Math_floor (double_times 1234567890123456 62) = 8"
  "Math_floor (double_times 987654321098765 62) = 6"
  "Math_floor (double_times 5000000000000000 62) = 34"
  "Math_floor (double_times 7777777777777777 62) = 53"
  "Math_floor (double_times 3141592653589793 62) = 21"
  "Math_floor (double_times 2718281828459045 62) = 18"
  "Math_floor (double_times 1618033988749894 62) = 11"
  "Math_floor (double_times 8999999999999999 62) = 61"
  by (simp_all add: Math_floor_def double_times_def round_nearest_even_def ulp_exponent.simps
                    Let_def)

lemma draw_world_password:
  "map (\<lambda>k. chars ! Math_floor (double_times k (length chars)))
     (take 12 (map (\<lambda>k. k mod 2 ^ 53) (randoms draw_world) @ replicate 12 0))
   = ''Aj*iJGm8YVN*''"
proof -
  have d: "take 12 (map (\<lambda>k. k mod 2 ^ 53) (randoms draw_world) @ replicate 12 0) =
             [0, 4648877034705028, 9007199254740991, 4503599627370496, 1234567890123456,
              987654321098765, 5000000000000000, 7777777777777777, 3141592653589793,
              2718281828459045, 1618033988749894, 8999999999999999]"
    by (simp add: draw_world_def)
  show ?thesis
    unfolding d chars_length list.map draw_world_indices by (simp add: chars_def)
qed

text \<open>
  On the sample world with thirteen values to come: dave is locked with 5 recorded
  failures; the reset unlocks the account, returns the password drawn from the first
  twelve values (the second one is the value above, where the rounding picks \<open>j\<close>) and
  leaves the thirteenth.
\<close>

theorem resetUserPassword_forces_change_and_unlocks_witness:
  "success (fst (resetUserPassword demo_bcrypt ''STD-4'' draw_world))
   \<and> tempPassword (fst (resetUserPassword demo_bcrypt ''STD-4'' draw_world))
       = Some ''Aj*iJGm8YVN*''
   \<and> randoms (snd (resetUserPassword demo_bcrypt ''STD-4'' draw_world)) = [42]
   \<and> map (\<lambda>r. (password_hash r, force_password_change r, failed_login_attempts r, locked_until r))
         (filter (\<lambda>u. user_id u = ''STD-4'')
            (users (snd (resetUserPassword demo_bcrypt ''STD-4'' draw_world))))
       = [(''pepper$Aj*iJGm8YVN*'', True, Some 0, None)]"
proof -
  let ?dave = "demo_row ''STD-4'' ''dave'' True (Some 5) (Some 900000)"
  let ?r = "resetUserPassword demo_bcrypt ''STD-4'' draw_world"
  let ?w1 = "snd (generateTempPassword draw_world)"
  let ?w2 = "snd (hashPassword demo_bcrypt (fst (generateTempPassword draw_world)) ?w1)"
  have tbl: "users draw_world = users demo_world" "faults draw_world = faults demo_world"
    "salts draw_world = [''pepper'']"
    by (simp_all add: draw_world_def demo_world_def)
  have one: "filter (\<lambda>u. user_id u = ''STD-4'') (users ?w2) = [?dave]"
    by (simp add: generateTempPassword_result tbl) (simp add: demo_world_def demo_row_def)
  have "faults ?w2 = faults demo_world"
    by (simp add: generateTempPassword_result tbl)
  then have ans: "store_answers ?w2"
    using store_answers_faults [of ?w2 demo_world] demo_store(1) by simp
  have s: "success (fst ?r)"
    using updateUser_ok [OF ans one]
    by (simp add: resetUserPassword_def resetUserPassword_try_def case_prod_beta)
  from resetUserPassword_forces_change_and_unlocks [OF surjective_pairing s]
  obtain usr pw where
    f: "filter (\<lambda>u. user_id u = ''STD-4'') (users draw_world) = [usr]"
    and pw: "pw = map (\<lambda>k. chars ! Math_floor (double_times k (length chars)))
                  (take 12 (map (\<lambda>k. k mod 2 ^ 53) (randoms draw_world) @ replicate 12 0))"
    and d: "randoms (snd ?r) = drop 12 (randoms draw_world)"
    and t: "tempPassword (fst ?r) = Some pw"
    and u: "users (snd ?r) =
             map (\<lambda>r. if r = usr
                      then usr\<lparr>password_hash :=
                                 bcrypt_hash demo_bcrypt pw 12
                                   (case salts draw_world of [] \<Rightarrow> [] | s # _ \<Rightarrow> s),
                               force_password_change := True,
                               failed_login_attempts := Some 0,
                               locked_until := None\<rparr>
                      else r) (users draw_world)"
    by blast
  have pw': "pw = ''Aj*iJGm8YVN*''" unfolding pw by (rule draw_world_password)
  from f have usr: "usr = ?dave" by (simp add: tbl demo_world_def demo_row_def)
  have "map (\<lambda>r. (password_hash r, force_password_change r, failed_login_attempts r, locked_until r))
         (filter (\<lambda>u. user_id u = ''STD-4'') (users (snd ?r)))
       = [(''pepper$Aj*iJGm8YVN*'', True, Some 0, None)]"
    unfolding u usr pw' tbl by (simp add: demo_world_def demo_row_def demo_bcrypt_def)
  moreover have "randoms (snd ?r) = [42]" unfolding d by (simp add: draw_world_def)
  ultimately show ?thesis using s t pw' by simp
qed

section \<open>Changing a password\<close>

lemma getUserById_found:
  assumes "getUserById userId w = (Inr (Some usr), w1)"
  shows "w1 = snd (next_fault w)"
    and "filter (\<lambda>u. user_id u = userId) (users w) = [usr]"
proof -
  obtain f w' where nf: "next_fault w = (f, w')" by (cases "next_fault w")
  then have u: "users w' = users w" using next_fault_frame(1) [of w] by simp
  from assms nf u show "w1 = snd (next_fault w)"
    and "filter (\<lambda>u. user_id u = userId) (users w) = [usr]"
    by (auto simp: getUserById_def single_def split: option.splits list.splits if_splits)
qed

text \<open>
  C6. The lookup by \<open>user_id\<close> answers with the account \<open>usr\<close>. When the current password
  does not verify against the stored hash, \<open>changePassword\<close> returns the error
  \<open>Current password is incorrect\<close> and the \<open>users\<close> table is exactly as it was. When it
  verifies and the store takes the write, the stored row of \<open>usr\<close> gets
  \<open>bcrypt.hash(newPassword, 12)\<close> as its hash and \<open>force_password_change = false\<close>, every
  other row is untouched, and the outcome is \<open>success = true\<close>.
\<close>

theorem changePassword_checks_current_password:
  assumes found: "getUserById userId w = (Inr (Some usr), w1)"
  shows "(\<not> verifyPassword bc currentPassword (password_hash usr) \<longrightarrow>
            fst (changePassword bc userId currentPassword newPassword w)
              = failure ''Current password is incorrect''
          \<and> users (snd (changePassword bc userId currentPassword newPassword w)) = users w)
       \<and> (verifyPassword bc currentPassword (password_hash usr) \<longrightarrow> store_answers w1 \<longrightarrow>
            success (fst (changePassword bc userId currentPassword newPassword w))
          \<and> error (fst (changePassword bc userId currentPassword newPassword w)) = None
          \<and> users (snd (changePassword bc userId currentPassword newPassword w)) =
              map (\<lambda>r. if r = usr
                       then usr\<lparr>password_hash :=
                                  bcrypt_hash bc newPassword 12
                                    (case salts w of [] \<Rightarrow> [] | s # _ \<Rightarrow> s),
                                force_password_change := False\<rparr>
                       else r) (users w))"
proof -
  have w1: "users w1 = users w" using getUserById_found(1) [OF found] by simp
  have one: "filter (\<lambda>u. user_id u = userId) (users w) = [usr]"
    by (rule getUserById_found(2) [OF found])
  have mismatch: "fst (changePassword bc userId currentPassword newPassword w)
                    = failure ''Current password is incorrect''
                \<and> users (snd (changePassword bc userId currentPassword newPassword w)) = users w"
    if "\<not> verifyPassword bc currentPassword (password_hash usr)"
  proof -
    have "changePassword bc userId currentPassword newPassword w =
            (failure ''Current password is incorrect'', w1)"
      using found that by (simp add: changePassword_def changePassword_try_def)
    then show ?thesis using w1 by simp
  qed
  have match: "success (fst (changePassword bc userId currentPassword newPassword w))
             \<and> error (fst (changePassword bc userId currentPassword newPassword w)) = None
             \<and> users (snd (changePassword bc userId currentPassword newPassword w)) =
                 map (\<lambda>r. if r = usr
                          then usr\<lparr>password_hash :=
                                     bcrypt_hash bc newPassword 12
                                       (case salts w of [] \<Rightarrow> [] | s # _ \<Rightarrow> s),
                                   force_password_change := False\<rparr>
                          else r) (users w)"
    if ok: "verifyPassword bc currentPassword (password_hash usr)" and ans: "store_answers w1"
  proof -
    let ?h = "fst (hashPassword bc newPassword w1)"
    let ?w2 = "snd (hashPassword bc newPassword w1)"
    let ?ups = "[Set_password_hash ?h, Set_force_password_change False]"
    have "faults ?w2 = faults w1" by simp
    then have ans2: "store_answers ?w2" using store_answers_faults [of ?w2 w1] ans by simp
    have one2: "filter (\<lambda>u. user_id u = userId) (users ?w2) = [usr]" using one w1 by simp
    have "changePassword bc userId currentPassword newPassword w =
            (\<lparr>success = True, user = None, token = None, tempPassword = None, error = None\<rparr>,
             logAuditEvent (Some userId) ''PASSWORD_CHANGE'' ''Password changed successfully''
               ((snd (next_fault ?w2))\<lparr>users := map (\<lambda>r. if user_id r = userId
                                                        then apply_updates ?ups r else r)
                                                  (users ?w2)\<rparr>))"
      using found ok updateUser_ok [OF ans2 one2, of ?ups]
      by (simp add: changePassword_def changePassword_try_def case_prod_beta)
    moreover have "map (\<lambda>r. if user_id r = userId then apply_updates ?ups r else r) (users ?w2)
                   = map (\<lambda>r. if r = usr then apply_updates ?ups usr else r) (users w)"
      using replace_single [OF one, of "apply_updates ?ups"] w1 by simp
    moreover have "?h = bcrypt_hash bc newPassword 12 (case salts w of [] \<Rightarrow> [] | s # _ \<Rightarrow> s)"
      using getUserById_found(1) [OF found] by (simp add: hashPassword_result)
    ultimately show ?thesis by simp
  qed
  from mismatch match show ?thesis by blast
qed



text \<open>
  On a world with one account, frank, whose password change is still pending: a wrong current
  password changes nothing; the right one stores the hash of the new password and clears
  the flag.
\<close>

theorem changePassword_checks_current_password_witness:
  "getUserById ''STD-6'' pending_world =
     (Inr (Some ((demo_row ''STD-6'' ''frank'' True (Some 2) None)\<lparr>force_password_change := True\<rparr>)),
      pending_world)
   \<and> \<not> verifyPassword demo_bcrypt ''guess'' ''salt$secret''
   \<and> fst (changePassword demo_bcrypt ''STD-6'' ''guess'' ''newpw'' pending_world)
       = failure ''Current password is incorrect''
   \<and> users (snd (changePassword demo_bcrypt ''STD-6'' ''guess'' ''newpw'' pending_world))
       = users pending_world
   \<and> verifyPassword demo_bcrypt ''secret'' ''salt$secret''
   \<and> store_answers pending_world
   \<and> success (fst (changePassword demo_bcrypt ''STD-6'' ''secret'' ''newpw'' pending_world))
   \<and> map (\<lambda>r. (password_hash r, force_password_change r))
         (users (snd (changePassword demo_bcrypt ''STD-6'' ''secret'' ''newpw'' pending_world)))
       = [(''pepper$newpw'', False)]"
proof -
  let ?frank = "(demo_row ''STD-6'' ''frank'' True (Some 2) None)\<lparr>force_password_change := True\<rparr>"
  have l: "getUserById ''STD-6'' pending_world = (Inr (Some ?frank), pending_world)"
    by (simp add: getUserById_def next_fault_def single_def pending_world_def demo_world_def
                  demo_row_def)
  have h: "password_hash ?frank = ''salt$secret''"
    "\<not> verifyPassword demo_bcrypt ''guess'' ''salt$secret''"
    "verifyPassword demo_bcrypt ''secret'' ''salt$secret''"
    "store_answers pending_world"
    "bcrypt_hash demo_bcrypt ''newpw'' 12 (case salts pending_world of [] \<Rightarrow> [] | s # _ \<Rightarrow> s)
       = ''pepper$newpw''"
    by (simp_all add: demo_row_def verifyPassword_def demo_bcrypt_def store_answers_def
                      next_fault_def pending_world_def demo_world_def)
  from changePassword_checks_current_password [OF l, of demo_bcrypt "''guess''" "''newpw''"] h(1,2)
  have a: "fst (changePassword demo_bcrypt ''STD-6'' ''guess'' ''newpw'' pending_world)
             = failure ''Current password is incorrect''"
    "users (snd (changePassword demo_bcrypt ''STD-6'' ''guess'' ''newpw'' pending_world))
       = users pending_world"
    by simp_all
  from changePassword_checks_current_password [OF l, of demo_bcrypt "''secret''" "''newpw''"] h(1,3,4)
  have b: "success (fst (changePassword demo_bcrypt ''STD-6'' ''secret'' ''newpw'' pending_world))"
    "users (snd (changePassword demo_bcrypt ''STD-6'' ''secret'' ''newpw'' pending_world)) =
       map (\<lambda>r. if r = ?frank
                then ?frank\<lparr>password_hash :=
                              bcrypt_hash demo_bcrypt ''newpw'' 12
                                (case salts pending_world of [] \<Rightarrow> [] | s # _ \<Rightarrow> s),
                            force_password_change := False\<rparr>
                else r) (users pending_world)"
    by simp_all
  have "map (\<lambda>r. (password_hash r, force_password_change r))
         (users (snd (changePassword demo_bcrypt ''STD-6'' ''secret'' ''newpw'' pending_world)))
       = [(''pepper$newpw'', False)]"
    unfolding b(2) h(5) by (simp add: pending_world_def demo_world_def)
  with a b(1) l h show ?thesis by simp
qed

section \<open>Login: failures of the store stay inside\<close>

lemma getUserByUsername_fault:
  assumes "faults w = Some e # fs" and "code e \<noteq> ''PGRST116''"
  shows "getUserByUsername uname w = (Inl e, w\<lparr>faults := fs\<rparr>)"
  using assms by (simp add: getUserByUsername_def next_fault_def single_def)

lemma updateUser_fault:
  assumes "faults w = Some e # fs"
  shows "updateUser userId updates w = (Inl e, w\<lparr>faults := fs\<rparr>)"
  using assms by (simp add: updateUser_def next_fault_def)

text \<open>
  C8. \<open>login\<close> always returns an outcome. Whatever the \<open>try\<close> block throws is caught and
  answered with the one outcome \<open>Login failed due to system error\<close>, in which nothing of the
  error appears (the error goes to the console). In particular a failing lookup (any store
  error but the no-row answer \<open>PGRST116\<close>, which the store client reads as an absent
  account) and a failing write of the counters, on the wrong-password path as on the
  right-password path, end so. That outcome differs from the invalid-credentials, the
  account-inactive and the account-locked outcomes.
\<close>

theorem login_catches_store_failures:
  "(\<forall>e w1. login_try bc creds w = (Inl e, w1) \<longrightarrow>
      login bc creds w =
        (failure ''Login failed due to system error'', console_error ''Login error:'' e w1))
   \<and> (\<forall>e fs. faults w = Some e # fs \<longrightarrow> code e \<noteq> ''PGRST116'' \<longrightarrow>
        fst (login bc creds w) = failure ''Login failed due to system error'')
   \<and> (\<forall>usr w1 w2 e fs.
        getUserByUsername (username creds) w = (Inr (Some usr), w1) \<longrightarrow>
        is_active usr \<longrightarrow> is_locked usr w1 = (False, w2) \<longrightarrow> faults w1 = Some e # fs \<longrightarrow>
        fst (login bc creds w) = failure ''Login failed due to system error'')
   \<and> failure ''Login failed due to system error'' \<noteq> failure ''Invalid username or password''
   \<and> failure ''Login failed due to system error''
       \<noteq> failure ''Account is inactive. Please contact administrator.''
   \<and> failure ''Login failed due to system error''
       \<noteq> failure ''Account is temporarily locked due to too many failed attempts''"
proof -
  have caught: "login bc creds w =
        (failure ''Login failed due to system error'', console_error ''Login error:'' e w1)"
    if "login_try bc creds w = (Inl e, w1)" for e w1
    using that by (simp add: login_def)
  have lookup_fails: "fst (login bc creds w) = failure ''Login failed due to system error''"
    if "faults w = Some e # fs" and "code e \<noteq> ''PGRST116''" for e fs
    using caught [OF login_try_thrown [OF getUserByUsername_fault [OF that]]] by simp
  have write_fails: "fst (login bc creds w) = failure ''Login failed due to system error''"
    if l: "getUserByUsername (username creds) w = (Inr (Some usr), w1)"
      and a: "is_active usr" and k: "is_locked usr w1 = (False, w2)"
      and f: "faults w1 = Some e # fs"
    for usr w1 w2 e fs
  proof -
    have w2: "w2 = snd (is_locked usr w1)" using k by simp
    have f2: "faults w2 = Some e # fs" using f w2 by simp
    have f3: "faults (snd (read_clock w2)) = Some e # fs" using f2 by simp
    show ?thesis
    proof (cases "verifyPassword bc (password creds) (password_hash usr)")
      case False
      have "\<exists>v. login_try bc creds w = (Inl e, v)"
        unfolding login_try_wrong_password [OF l a k False]
        using updateUser_fault [OF f2] updateUser_fault [OF f3] by simp
      then show ?thesis using caught by auto
    next
      case True
      have "\<exists>v. login_try bc creds w = (Inl e, v)"
        using l a k True updateUser_fault [OF f3]
        by (simp add: login_try_def read_clock_def)
      then show ?thesis using caught by auto
    qed
  qed
  have "failure ''Login failed due to system error'' \<noteq> failure ''Invalid username or password''"
    "failure ''Login failed due to system error''
       \<noteq> failure ''Account is inactive. Please contact administrator.''"
    "failure ''Login failed due to system error''
       \<noteq> failure ''Account is temporarily locked due to too many failed attempts''"
    by (simp_all add: failure_def)
  with caught lookup_fails write_fails show ?thesis by blast
qed


text \<open>
  On the sample world with a store that fails: at the lookup, and at the write after alice
  gave the right password.
\<close>

theorem login_catches_store_failures_witness:
  "code connection_failure \<noteq> ''PGRST116''
   \<and> login_try demo_bcrypt \<lparr>username = ''alice'', password = ''secret''\<rparr>
        (demo_world\<lparr>faults := [Some connection_failure]\<rparr>)
       = (Inl connection_failure, demo_world)
   \<and> login demo_bcrypt \<lparr>username = ''alice'', password = ''secret''\<rparr>
        (demo_world\<lparr>faults := [Some connection_failure]\<rparr>)
       = (failure ''Login failed due to system error'',
          console_error ''Login error:'' connection_failure demo_world)
   \<and> getUserByUsername ''alice'' (demo_world\<lparr>faults := [None, Some connection_failure]\<rparr>)
       = (Inr (Some (demo_row ''STD-1'' ''alice'' True (Some 4) None)),
          demo_world\<lparr>faults := [Some connection_failure]\<rparr>)
   \<and> fst (login demo_bcrypt \<lparr>username = ''alice'', password = ''secret''\<rparr>
            (demo_world\<lparr>faults := [None, Some connection_failure]\<rparr>))
       = failure ''Login failed due to system error''
   \<and> error (failure ''Login failed due to system error'')
       = Some ''Login failed due to system error''"
proof -
  let ?alice = "demo_row ''STD-1'' ''alice'' True (Some 4) None"
  let ?c = "\<lparr>username = ''alice'', password = ''secret''\<rparr>"
  let ?down = "demo_world\<lparr>faults := [Some connection_failure]\<rparr>"
  let ?flaky = "demo_world\<lparr>faults := [None, Some connection_failure]\<rparr>"
  have c: "code connection_failure \<noteq> ''PGRST116''" by (simp add: connection_failure_def)
  have f: "faults ?down = Some connection_failure # []" by simp
  have d: "?down\<lparr>faults := []\<rparr> = demo_world" by (simp add: demo_world_def)
  have t: "login_try demo_bcrypt ?c ?down = (Inl connection_failure, demo_world)"
  proof -
    have "getUserByUsername (username ?c) ?down = (Inl connection_failure, ?down\<lparr>faults := []\<rparr>)"
      by (rule getUserByUsername_fault [OF f c])
    from login_try_thrown [OF this] d show ?thesis by simp
  qed
  have l: "getUserByUsername (username ?c) ?flaky = (Inr (Some ?alice), ?down)"
    by (simp add: getUserByUsername_def next_fault_def single_def demo_world_def demo_row_def)
  have h: "is_active ?alice" "is_locked ?alice ?down = (False, ?down)"
    by (simp_all add: demo_row_def is_locked_def)
  have "login demo_bcrypt ?c ?down =
          (failure ''Login failed due to system error'',
           console_error ''Login error:'' connection_failure demo_world)"
    using login_catches_store_failures [of demo_bcrypt ?c ?down] t by blast
  moreover have "fst (login demo_bcrypt ?c ?flaky) = failure ''Login failed due to system error''"
    using login_catches_store_failures [of demo_bcrypt ?c ?flaky] l h f by blast
  ultimately show ?thesis using c l t by (simp add: failure_def)
qed

end
